theory Spec2Isabelle
  imports Complex_Main "HOL-Library.Monad_Syntax" "HOL-Library.AList"
begin

section \<open>Values of the program\<close>

subsection \<open>JSON and Python's view of it\<close>

text \<open>
  The content API answers with JSON; \<^verbatim>\<open>response.json()\<close> turns it into Python
  values: \<^verbatim>\<open>None\<close>, \<^verbatim>\<open>bool\<close>, numbers, \<^verbatim>\<open>str\<close>, \<^verbatim>\<open>list\<close> and \<^verbatim>\<open>dict\<close>.
  A dict is an association list read with \<open>map_of\<close> and written with \<open>AList.update\<close>
  (the first entry of a key is the entry). Numbers are the integers; no claim reads
  a number.
\<close>

datatype json =
    JNull
  | JBool bool
  | JNum int
  | JStr string
  | JArr "json list"
  | JObj "(string \<times> json) list"

type_synonym dict = "(string \<times> json) list"

text \<open>Python's truth value of a JSON value (\<^verbatim>\<open>if x:\<close>).\<close>

fun truthy :: "json \<Rightarrow> bool" where
  "truthy JNull = False"
| "truthy (JBool b) = b"
| "truthy (JNum n) = (n \<noteq> 0)"
| "truthy (JStr s) = (s \<noteq> [])"
| "truthy (JArr xs) = (xs \<noteq> [])"
| "truthy (JObj kvs) = (kvs \<noteq> [])"

text \<open>\<^verbatim>\<open>d.get(k)\<close> is \<open>map_of d k\<close>, with \<open>None\<close> for Python's \<^verbatim>\<open>None\<close> of a missing
  key; \<^verbatim>\<open>if d.get(k):\<close> is \<open>get_truthy\<close>.\<close>

definition get_truthy :: "dict \<Rightarrow> string \<Rightarrow> bool" where
  "get_truthy d k = (case map_of d k of None \<Rightarrow> False | Some v \<Rightarrow> truthy v)"

text \<open>The exceptions the two scripts can raise, and \<^verbatim>\<open>sys.exit(1)\<close>.\<close>

datatype exn =
    TypeError
  | AttributeError
  | ValueError
  | ZeroDivisionError
  | SystemExit nat

subsection \<open>What the libraries do\<close>

text \<open>
  The repository calls into html2text, pydantic and Python's string formatting.
  Their behaviour on the values below is not code of the repository; the model
  takes it as a parameter:
  \<^item> \<open>py_str v\<close>: what an f-string prints for a value \<open>v\<close> that is not a \<^verbatim>\<open>str\<close>;
  \<^item> \<open>html2text_handle\<close>: \<^verbatim>\<open>HTML2Text.handle\<close> with the options the script sets;
  \<^item> \<open>str_validator\<close>, \<open>bool_validator\<close>, \<open>datetime_validator\<close>: what pydantic makes of
    a value that is neither \<^verbatim>\<open>None\<close> nor of the declared type (\<open>None\<close> of the option
    type: the value is refused with a ValidationError).
\<close>

datatype datetime = Timestamp int

record library =
  py_str :: "json \<Rightarrow> string"
  html2text_handle :: "string \<Rightarrow> string"
  str_validator :: "json \<Rightarrow> string option"
  bool_validator :: "json \<Rightarrow> bool option"
  datetime_validator :: "json \<Rightarrow> datetime option"

subsection \<open>models.py\<close>

record GovPageDetails =
  body :: "string option"
  external_related_links :: "json list"
  current :: "bool option"
  ended_on :: "string option"
  parts :: "json list option"

record GovPageLink =
  title :: string
  base_path :: string
  api_path :: string
  web_url :: string
  "locale" :: string

record GovPageLinks =
  organisations :: "GovPageLink list option"
  parent :: "GovPageLink list option"
  available_translations :: "GovPageLink list option"

record Snippet =
  well_written_snippet :: string
  badly_written_snippet :: string

record ArticleSnippets =
  snippets :: "Snippet list"

record SyntheticData =
  poorly_written_article :: string
  article_snippets :: "ArticleSnippets option"

record GovPage =
  title :: string
  base_path :: string
  content_id :: string
  description :: "string option"
  document_type :: string
  schema_name :: string
  "locale" :: string
  api_path :: "string option"
  web_url :: "string option"
  details :: GovPageDetails
  links :: GovPageLinks
  public_updated_at :: "datetime option"
  first_published_at :: "datetime option"
  withdrawn :: bool
  synthetic_data :: "SyntheticData option"

text \<open>
  Field validators. The outer \<open>option\<close> is the validation: \<open>None\<close> is pydantic's
  ValidationError. A field without a default is \<open>required\<close>; \<^verbatim>\<open>Optional[T] = None\<close>
  is \<open>optional\<close>; \<^verbatim>\<open>T = d\<close> is \<open>defaulted\<close>; \<^verbatim>\<open>Optional[T] = d\<close> is
  \<open>optional_defaulted\<close>. Keys of the response that the model does not declare are
  ignored.
\<close>

definition str_field :: "library \<Rightarrow> json \<Rightarrow> string option" where
  "str_field L v = (case v of JStr s \<Rightarrow> Some s | JNull \<Rightarrow> None | _ \<Rightarrow> str_validator L v)"

definition bool_field :: "library \<Rightarrow> json \<Rightarrow> bool option" where
  "bool_field L v = (case v of JBool b \<Rightarrow> Some b | JNull \<Rightarrow> None | _ \<Rightarrow> bool_validator L v)"

definition datetime_field :: "library \<Rightarrow> json \<Rightarrow> datetime option" where
  "datetime_field L v = (case v of JNull \<Rightarrow> None | _ \<Rightarrow> datetime_validator L v)"

definition any_list_field :: "json \<Rightarrow> json list option" where
  "any_list_field v = (case v of JArr xs \<Rightarrow> Some xs | _ \<Rightarrow> None)"

definition list_field :: "(json \<Rightarrow> 'a option) \<Rightarrow> json \<Rightarrow> 'a list option" where
  "list_field f v = (case v of JArr xs \<Rightarrow> those (map f xs) | _ \<Rightarrow> None)"

definition model_field :: "(dict \<Rightarrow> 'a option) \<Rightarrow> json \<Rightarrow> 'a option" where
  "model_field f v = (case v of JObj d \<Rightarrow> f d | _ \<Rightarrow> None)"

definition required :: "(json \<Rightarrow> 'a option) \<Rightarrow> dict \<Rightarrow> string \<Rightarrow> 'a option" where
  "required f d k = (case map_of d k of None \<Rightarrow> None | Some v \<Rightarrow> f v)"

definition optional :: "(json \<Rightarrow> 'a option) \<Rightarrow> dict \<Rightarrow> string \<Rightarrow> 'a option option" where
  "optional f d k =
     (case map_of d k of
        None \<Rightarrow> Some None
      | Some JNull \<Rightarrow> Some None
      | Some v \<Rightarrow> map_option Some (f v))"

definition defaulted :: "(json \<Rightarrow> 'a option) \<Rightarrow> 'a \<Rightarrow> dict \<Rightarrow> string \<Rightarrow> 'a option" where
  "defaulted f dflt d k = (case map_of d k of None \<Rightarrow> Some dflt | Some v \<Rightarrow> f v)"

definition optional_defaulted ::
  "(json \<Rightarrow> 'a option) \<Rightarrow> 'a \<Rightarrow> dict \<Rightarrow> string \<Rightarrow> 'a option option" where
  "optional_defaulted f dflt d k =
     (case map_of d k of
        None \<Rightarrow> Some (Some dflt)
      | Some JNull \<Rightarrow> Some None
      | Some v \<Rightarrow> map_option Some (f v))"

definition GovPageDetails_init :: "library \<Rightarrow> dict \<Rightarrow> GovPageDetails option" where
  "GovPageDetails_init L d = do {
     b \<leftarrow> optional (str_field L) d ''body'';
     e \<leftarrow> defaulted any_list_field [] d ''external_related_links'';
     c \<leftarrow> optional (bool_field L) d ''current'';
     n \<leftarrow> optional (str_field L) d ''ended_on'';
     p \<leftarrow> optional any_list_field d ''parts'';
     Some \<lparr>body = b, external_related_links = e, current = c, ended_on = n, parts = p\<rparr>
   }"

definition GovPageLink_init :: "library \<Rightarrow> dict \<Rightarrow> GovPageLink option" where
  "GovPageLink_init L d = do {
     t \<leftarrow> required (str_field L) d ''title'';
     b \<leftarrow> required (str_field L) d ''base_path'';
     a \<leftarrow> required (str_field L) d ''api_path'';
     w \<leftarrow> required (str_field L) d ''web_url'';
     l \<leftarrow> defaulted (str_field L) ''en'' d ''locale'';
     Some \<lparr>GovPageLink.title = t, base_path = b, api_path = a, web_url = w, locale = l\<rparr>
   }"

definition GovPageLinks_init :: "library \<Rightarrow> dict \<Rightarrow> GovPageLinks option" where
  "GovPageLinks_init L d = do {
     let link_list = list_field (model_field (GovPageLink_init L));
     org \<leftarrow> optional_defaulted link_list [] d ''organisations'';
     par \<leftarrow> optional_defaulted link_list [] d ''parent'';
     tra \<leftarrow> optional_defaulted link_list [] d ''available_translations'';
     Some \<lparr>organisations = org, parent = par, available_translations = tra\<rparr>
   }"

definition Snippet_init :: "library \<Rightarrow> dict \<Rightarrow> Snippet option" where
  "Snippet_init L d = do {
     w \<leftarrow> required (str_field L) d ''well_written_snippet'';
     b \<leftarrow> required (str_field L) d ''badly_written_snippet'';
     Some \<lparr>well_written_snippet = w, badly_written_snippet = b\<rparr>
   }"

definition ArticleSnippets_init :: "library \<Rightarrow> dict \<Rightarrow> ArticleSnippets option" where
  "ArticleSnippets_init L d = do {
     s \<leftarrow> required (list_field (model_field (Snippet_init L))) d ''snippets'';
     Some \<lparr>snippets = s\<rparr>
   }"

definition SyntheticData_init :: "library \<Rightarrow> dict \<Rightarrow> SyntheticData option" where
  "SyntheticData_init L d = do {
     p \<leftarrow> required (str_field L) d ''poorly_written_article'';
     a \<leftarrow> optional (model_field (ArticleSnippets_init L)) d ''article_snippets'';
     Some \<lparr>poorly_written_article = p, article_snippets = a\<rparr>
   }"

text \<open>\<^verbatim>\<open>GovPage(**response)\<close>.\<close>

definition GovPage_init :: "library \<Rightarrow> dict \<Rightarrow> GovPage option" where
  "GovPage_init L d = do {
     t \<leftarrow> required (str_field L) d ''title'';
     bp \<leftarrow> required (str_field L) d ''base_path'';
     ci \<leftarrow> required (str_field L) d ''content_id'';
     de \<leftarrow> optional (str_field L) d ''description'';
     dt \<leftarrow> required (str_field L) d ''document_type'';
     sn \<leftarrow> required (str_field L) d ''schema_name'';
     lo \<leftarrow> defaulted (str_field L) ''en'' d ''locale'';
     ap \<leftarrow> optional (str_field L) d ''api_path'';
     wu \<leftarrow> optional (str_field L) d ''web_url'';
     dl \<leftarrow> required (model_field (GovPageDetails_init L)) d ''details'';
     li \<leftarrow> required (model_field (GovPageLinks_init L)) d ''links'';
     pu \<leftarrow> optional (datetime_field L) d ''public_updated_at'';
     fp \<leftarrow> optional (datetime_field L) d ''first_published_at'';
     wd \<leftarrow> defaulted (bool_field L) False d ''withdrawn'';
     sd \<leftarrow> optional (model_field (SyntheticData_init L)) d ''synthetic_data'';
     Some \<lparr>title = t, base_path = bp, content_id = ci, description = de,
            document_type = dt, schema_name = sn, locale = lo, api_path = ap,
            web_url = wu, details = dl, links = li, public_updated_at = pu,
            first_published_at = fp, withdrawn = wd, synthetic_data = sd\<rparr>
   }"

section \<open>The Fetcher: scrape_urls.py\<close>

subsection \<open>The world outside\<close>

text \<open>
  The content API is outside the program. \<open>respond web n path\<close> is what the \<open>n\<close>-th
  \<^verbatim>\<open>requests.get\<close> of the run (counted from 0) meets when it asks for \<open>path\<close>:
  the call raises a \<^verbatim>\<open>RequestException\<close>, or it returns a status code and a body.
  The body is \<open>None\<close> when it is not JSON (\<^verbatim>\<open>response.json()\<close> then raises requests'
  \<^verbatim>\<open>JSONDecodeError\<close>, a \<^verbatim>\<open>RequestException\<close>); a JSON body of the content API is an
  object. \<open>latency web n\<close> is the time that request takes.

  The world of a run is the wall clock (seconds), the number of requests sent, and
  the trace of what the run did to the outside: requests, sleeps, and the clock
  reading that opens a batch of the Fetcher. The trace of the Synthesizer holds its
  sleeps and its calls of \<^verbatim>\<open>process_batch\<close>, with the index the batch starts at.
\<close>

datatype outcome = RequestException | Response nat "dict option"

record web =
  respond :: "nat \<Rightarrow> string \<Rightarrow> outcome"
  latency :: "nat \<Rightarrow> rat"

datatype event =
    Get string
  | Sleep rat
  | BatchStart rat
  | ProcessBatch nat

record world =
  clock :: rat
  sent :: nat
  trace :: "event list"

definition world0 :: "rat \<Rightarrow> world" where
  "world0 t0 = \<lparr>clock = t0, sent = 0, trace = []\<rparr>"

definition request :: "web \<Rightarrow> string \<Rightarrow> world \<Rightarrow> outcome \<times> world" where
  "request web path w =
     (respond web (sent w) path,
      w\<lparr>clock := clock w + latency web (sent w), sent := Suc (sent w),
        trace := trace w @ [Get path]\<rparr>)"

definition sleep :: "rat \<Rightarrow> world \<Rightarrow> world" where
  "sleep d w = w\<lparr>clock := clock w + d, trace := trace w @ [Sleep d]\<rparr>"

subsection \<open>batch\_query\_govuk\_api\<close>

text \<open>\<^verbatim>\<open>data.get('document_type') in [...]\<close>: the value is one of the listed strings.\<close>

definition document_type_in :: "dict \<Rightarrow> string list \<Rightarrow> bool" where
  "document_type_in data ts =
     (case map_of data ''document_type'' of Some (JStr t) \<Rightarrow> t \<in> set ts | _ \<Rightarrow> False)"

text \<open>\<^verbatim>\<open>response.raise_for_status()\<close> raises for the 4xx and 5xx codes.\<close>

definition raise_for_status :: "nat \<Rightarrow> bool" where
  "raise_for_status st = (400 \<le> st \<and> st < 600)"

text \<open>What the script does with an answer that is in: lines 59 to 68.\<close>

definition read_response :: "string \<Rightarrow> outcome \<Rightarrow> string \<times> dict option" where
  "read_response path r =
     (case r of
        RequestException \<Rightarrow> (path, None)
      | Response st b \<Rightarrow>
          if raise_for_status st then (path, None)
          else (case b of
                  None \<Rightarrow> (path, None)
                | Some data \<Rightarrow>
                    if document_type_in data [''placeholder'', ''redirect'']
                    then (path, None) else (path, Some data)))"

text \<open>The body of the inner loop: one path, retried once after 5 seconds on a 429.\<close>

definition query_path :: "web \<Rightarrow> string \<Rightarrow> world \<Rightarrow> (string \<times> dict option) \<times> world" where
  "query_path web path w =
     (case request web path w of
        (RequestException, w1) \<Rightarrow> ((path, None), w1)
      | (Response st b, w1) \<Rightarrow>
          if st = 429
          then (case request web path (sleep 5 w1) of (r2, w2) \<Rightarrow> (read_response path r2, w2))
          else (read_response path (Response st b), w1))"

fun query_paths ::
  "web \<Rightarrow> string list \<Rightarrow> world \<Rightarrow> (string \<times> dict option) list \<times> world" where
  "query_paths web [] w = ([], w)"
| "query_paths web (path # batch) w =
     (case query_path web path w of
        (r, w1) \<Rightarrow> (case query_paths web batch w1 of (rs, w2) \<Rightarrow> (r # rs, w2)))"

text \<open>The outer loop, \<^verbatim>\<open>for i in range(0, len(paths), batch_size)\<close>, from index \<open>i\<close>.\<close>

function query_batches ::
  "web \<Rightarrow> string list \<Rightarrow> nat \<Rightarrow> nat \<Rightarrow> world \<Rightarrow> (string \<times> dict option) list \<times> world" where
  "query_batches web paths batch_size i w =
     (if batch_size = 0 \<or> length paths \<le> i then ([], w)
      else
        let batch = take batch_size (drop i paths);
            batch_start = clock w;
            w0 = w\<lparr>trace := trace w @ [BatchStart batch_start]\<rparr>
        in case query_paths web batch w0 of
             (rs, w1) \<Rightarrow>
               let batch_duration = clock w1 - batch_start;
                   w2 = (if batch_duration < 1 then sleep (1 - batch_duration) w1 else w1)
               in case query_batches web paths batch_size (i + batch_size) w2 of
                    (rest, w3) \<Rightarrow> (rs @ rest, w3))"
  by pat_completeness auto
termination
  by (relation "measure (\<lambda>(web, paths, batch_size, i, w). length paths - i)") auto

declare query_batches.simps [simp del]

text \<open>\<^verbatim>\<open>range\<close> raises ValueError for a step of 0; nothing catches it.\<close>

definition batch_query_govuk_api ::
  "web \<Rightarrow> string list \<Rightarrow> nat \<Rightarrow> world \<Rightarrow> exn + (string \<times> dict option) list \<times> world" where
  "batch_query_govuk_api web paths batch_size w =
     (if batch_size = 0 then Inl ValueError
      else Inr (query_batches web paths batch_size 0 w))"

subsection \<open>convert\_html\_to\_markdown\<close>

text \<open>\<^verbatim>\<open>str.strip()\<close> on the ASCII white space (a \<open>char\<close> is a byte).\<close>

definition py_isspace :: "char \<Rightarrow> bool" where
  "py_isspace c = (let n = (of_char c :: nat) in (9 \<le> n \<and> n \<le> 13) \<or> (28 \<le> n \<and> n \<le> 32))"

definition strip :: "string \<Rightarrow> string" where
  "strip s = rev (dropWhile py_isspace (rev (dropWhile py_isspace s)))"

definition convert_html_to_markdown :: "library \<Rightarrow> string \<Rightarrow> string" where
  "convert_html_to_markdown L html_content = strip (html2text_handle L html_content)"

subsection \<open>process\_pages\<close>

text \<open>\<^verbatim>\<open>'parts' in s\<close> for a string \<open>s\<close>: the substring test.\<close>

fun contains :: "string \<Rightarrow> string \<Rightarrow> bool" where
  "contains [] sub = (sub = [])"
| "contains (c # cs) sub = (take (length sub) (c # cs) = sub \<or> contains cs sub)"

text \<open>\<^verbatim>\<open>for part in parts\<close>: a list gives its elements, a string its characters, a
  dict its keys; nothing else can be iterated.\<close>

definition iterate :: "json \<Rightarrow> exn + json list" where
  "iterate v =
     (case v of
        JArr xs \<Rightarrow> Inr xs
      | JStr s \<Rightarrow> Inr (map (\<lambda>c. JStr [c]) s)
      | JObj d \<Rightarrow> Inr (map (\<lambda>kv. JStr (fst kv)) d)
      | _ \<Rightarrow> Inl TypeError)"

text \<open>What an f-string prints for a value.\<close>

definition format_value :: "library \<Rightarrow> json \<Rightarrow> string" where
  "format_value L v = (case v of JStr s \<Rightarrow> s | _ \<Rightarrow> py_str L v)"

text \<open>\<^verbatim>\<open>part.get('title', 'Untitled Section')\<close>.\<close>

definition part_title :: "dict \<Rightarrow> json" where
  "part_title part =
     (case map_of part ''title'' of None \<Rightarrow> JStr ''Untitled Section'' | Some t \<Rightarrow> t)"

text \<open>The loop of lines 125 to 128, with \<open>combined_body\<close> as the accumulator. A part
  that is no dict has no \<^verbatim>\<open>get\<close> (AttributeError); a body that is true and no
  string cannot be appended to a string (TypeError).\<close>

fun combine_parts :: "library \<Rightarrow> json list \<Rightarrow> string \<Rightarrow> exn + string" where
  "combine_parts L [] combined_body = Inr combined_body"
| "combine_parts L (JObj part # rest) combined_body =
     (if get_truthy part ''body''
      then (case map_of part ''body'' of
              Some (JStr b) \<Rightarrow>
                combine_parts L rest
                  (combined_body @ ''\<newline>\<newline>## '' @ format_value L (part_title part)
                     @ ''\<newline>\<newline>'' @ b)
            | _ \<Rightarrow> Inl TypeError)
      else combine_parts L rest combined_body)"
| "combine_parts L (_ # rest) combined_body = Inl AttributeError"

text \<open>Lines 121 to 129. \<^verbatim>\<open>'parts' in response.get('details', {})\<close> is a key test on
  a dict, a substring test on a string, an element test on a list and a TypeError
  on anything else; \<^verbatim>\<open>response['details']['parts']\<close> raises TypeError on a string
  and on a list.\<close>

definition normalize_guide :: "library \<Rightarrow> dict \<Rightarrow> exn + dict" where
  "normalize_guide L response =
     (if map_of response ''document_type'' = Some (JStr ''guide'')
      then (case map_of response ''details'' of
              None \<Rightarrow> Inr response
            | Some (JObj d) \<Rightarrow>
                (case map_of d ''parts'' of
                   None \<Rightarrow> Inr response
                 | Some parts' \<Rightarrow>
                     (case iterate parts' of
                        Inl e \<Rightarrow> Inl e
                      | Inr ps \<Rightarrow>
                          (case combine_parts L ps [] of
                             Inl e \<Rightarrow> Inl e
                           | Inr combined_body \<Rightarrow>
                               Inr (AList.update ''details''
                                      (JObj (AList.update ''body'' (JStr combined_body) d))
                                      response))))
            | Some (JStr s) \<Rightarrow> if contains s ''parts'' then Inl TypeError else Inr response
            | Some (JArr xs) \<Rightarrow> if JStr ''parts'' \<in> set xs then Inl TypeError else Inr response
            | Some _ \<Rightarrow> Inl TypeError)
      else Inr response)"

text \<open>The state of the loop of process\_pages: \<open>gov_pages\<close> and \<open>skipped_types\<close>.\<close>

type_synonym fetch_state = "GovPage list \<times> (string \<rightharpoonup> nat)"

definition SKIP_TYPES :: "string list" where
  "SKIP_TYPES = [''government'', ''mainstream_browse_page'']"

text \<open>\<^verbatim>\<open>skipped_types[doc_type] = skipped_types.get(doc_type, 0) + 1\<close>.\<close>

definition count_skip :: "(string \<rightharpoonup> nat) \<Rightarrow> string \<Rightarrow> (string \<rightharpoonup> nat)" where
  "count_skip skipped_types doc_type =
     skipped_types(doc_type \<mapsto> (case skipped_types doc_type of None \<Rightarrow> 0 | Some c \<Rightarrow> c) + 1)"

text \<open>Lines 140 to 151: a page with a body is converted and appended, a page without
  one ends the run.\<close>

definition convert_body :: "library \<Rightarrow> GovPage \<Rightarrow> exn + GovPage" where
  "convert_body L gov_page =
     (case body (details gov_page) of
        None \<Rightarrow> Inl (SystemExit 1)
      | Some b \<Rightarrow>
          if b = [] then Inl (SystemExit 1)
          else Inr (gov_page\<lparr>details := (details gov_page)\<lparr>body := Some (convert_html_to_markdown L b)\<rparr>\<rparr>))"

text \<open>The body of the loop, for one entry of \<open>results\<close>. Every exception raised inside
  the \<^verbatim>\<open>try\<close> is caught and answered with \<^verbatim>\<open>sys.exit(1)\<close>; \<^verbatim>\<open>SystemExit\<close> itself is
  no \<^verbatim>\<open>Exception\<close> and leaves the loop. Logging is left out.\<close>

definition process_result ::
  "library \<Rightarrow> string \<times> dict option \<Rightarrow> fetch_state \<Rightarrow> exn + fetch_state" where
  "process_result L result s =
     (case snd result of
        None \<Rightarrow> Inr s
      | Some response \<Rightarrow>
          if response = [] then Inr s
          else if document_type_in response SKIP_TYPES
          then (case map_of response ''document_type'' of
                  Some (JStr doc_type) \<Rightarrow> Inr (fst s, count_skip (snd s) doc_type)
                | _ \<Rightarrow> Inr s)
          else (case normalize_guide L response of
                  Inl e \<Rightarrow> Inl (SystemExit 1)
                | Inr response' \<Rightarrow>
                    (case GovPage_init L response' of
                       None \<Rightarrow> Inl (SystemExit 1)
                     | Some gov_page \<Rightarrow>
                         (case convert_body L gov_page of
                            Inl e \<Rightarrow> Inl e
                          | Inr page \<Rightarrow> Inr (fst s @ [page], snd s)))))"

fun process_results ::
  "library \<Rightarrow> (string \<times> dict option) list \<Rightarrow> fetch_state \<Rightarrow> exn + fetch_state" where
  "process_results L [] s = Inr s"
| "process_results L (result # results) s =
     (case process_result L result s of
        Inl e \<Rightarrow> Inl e
      | Inr s' \<Rightarrow> process_results L results s')"

definition process_pages ::
  "library \<Rightarrow> web \<Rightarrow> string list \<Rightarrow> world \<Rightarrow> exn + fetch_state" where
  "process_pages L web paths w =
     (case batch_query_govuk_api web paths 10 w of
        Inl e \<Rightarrow> Inl e
      | Inr (results, w') \<Rightarrow> process_results L results ([], Map.empty))"

subsection \<open>main\<close>

text \<open>\<^verbatim>\<open>df.drop_duplicates(subset=['Path'])\<close> is pandas': with its default
  \<^verbatim>\<open>keep='first'\<close> a row stays when no earlier row has its path. \<open>seen\<close> are the paths
  of the rows before.\<close>

fun drop_duplicates_from :: "'a list \<Rightarrow> 'a list \<Rightarrow> 'a list" where
  "drop_duplicates_from seen [] = []"
| "drop_duplicates_from seen (x # xs) =
     (if x \<in> set seen then drop_duplicates_from seen xs
      else x # drop_duplicates_from (seen @ [x]) xs)"

definition drop_duplicates :: "'a list \<Rightarrow> 'a list" where
  "drop_duplicates xs = drop_duplicates_from [] xs"

text \<open>The \<^verbatim>\<open>Path\<close> column of \<^verbatim>\<open>df_deduplicated\<close>: the paths main hands to
  \<^verbatim>\<open>process_pages\<close>, and through it to \<^verbatim>\<open>batch_query_govuk_api\<close>.\<close>

definition df_deduplicated :: "string list \<Rightarrow> string list" where
  "df_deduplicated column = drop_duplicates column"

text \<open>main of scrape\_urls.py, from the \<^verbatim>\<open>Path\<close> column of the loaded file: the result is
  the list written to the output file, or the exception that ended the run before
  anything was written.\<close>

definition scrape_urls_main :: "library \<Rightarrow> web \<Rightarrow> string list \<Rightarrow> world \<Rightarrow> exn + GovPage list" where
  "scrape_urls_main L web column w =
     (case process_pages L web (df_deduplicated column) w of
        Inl e \<Rightarrow> Inl e
      | Inr (gov_pages, skipped_types) \<Rightarrow> Inr gov_pages)"

section \<open>The Synthesizer: generate\_synthetic\_data.py\<close>

subsection \<open>The language-model service\<close>

text \<open>
  The script asks the service twice for a record: for a rewrite of the body
  (\<^verbatim>\<open>get_synthetic_text\<close>) and for its snippets (\<^verbatim>\<open>get_article_snippets\<close>). A call
  raises, or it returns \<^verbatim>\<open>completion.choices[0].message.parsed\<close>, which is the
  parsed object or \<^verbatim>\<open>None\<close>. The service is outside the program: \<open>rewrite_reply svc k\<close>
  and \<open>snippets_reply svc k\<close> are its answers to the two requests made for the record
  at position \<open>k\<close> of the input (a run asks at most once of each kind for a record).

  The script declares \<^verbatim>\<open>Snippet\<close> and \<^verbatim>\<open>ArticleSnippets\<close> again, with the fields of
  models.py; \<^verbatim>\<open>snippets.dict()\<close> handed to \<^verbatim>\<open>SyntheticData\<close> is validated back into
  the same object, so one record type stands for both.
\<close>

datatype 'a reply = Raised | Parsed "'a option"

record SynthesisedText =
  poorly_written_article :: string

record service =
  rewrite_reply :: "nat \<Rightarrow> string \<Rightarrow> SynthesisedText reply"
  snippets_reply :: "nat \<Rightarrow> string \<Rightarrow> ArticleSnippets reply"

definition get_synthetic_text :: "service \<Rightarrow> nat \<Rightarrow> string \<Rightarrow> SynthesisedText reply" where
  "get_synthetic_text svc k original_text = rewrite_reply svc k original_text"

definition get_article_snippets :: "service \<Rightarrow> nat \<Rightarrow> string \<Rightarrow> ArticleSnippets reply" where
  "get_article_snippets svc k original_text = snippets_reply svc k original_text"

subsection \<open>process\_batch\<close>

text \<open>The \<^verbatim>\<open>try\<close> block of lines 86 to 100: \<open>None\<close> when an exception reached the
  \<^verbatim>\<open>except\<close>, and the \<^verbatim>\<open>SyntheticData\<close> that is assigned otherwise. A reply of
  \<^verbatim>\<open>None\<close> raises AttributeError where its field or its \<^verbatim>\<open>dict()\<close> is read.\<close>

definition synthesise :: "service \<Rightarrow> nat \<Rightarrow> string \<Rightarrow> SyntheticData option" where
  "synthesise svc k b =
     (case get_synthetic_text svc k b of
        Raised \<Rightarrow> None
      | Parsed synthetic \<Rightarrow>
          (case get_article_snippets svc k b of
             Raised \<Rightarrow> None
           | Parsed None \<Rightarrow> None
           | Parsed (Some snippets_dict) \<Rightarrow>
               (case synthetic of
                  None \<Rightarrow> None
                | Some text \<Rightarrow>
                    Some \<lparr>SyntheticData.poorly_written_article =
                            SynthesisedText.poorly_written_article text,
                          article_snippets = Some snippets_dict\<rparr>)))"

text \<open>The body of the loop over the batch, for the record at position \<open>k\<close>.\<close>

definition process_page :: "service \<Rightarrow> nat \<Rightarrow> GovPage \<Rightarrow> GovPage" where
  "process_page svc k page =
     (case body (details page) of
        None \<Rightarrow> page
      | Some b \<Rightarrow>
          if b = [] then page
          else (case synthesise svc k b of
                  None \<Rightarrow> page
                | Some sd \<Rightarrow> page\<lparr>synthetic_data := Some sd\<rparr>))"

fun process_each :: "service \<Rightarrow> nat \<Rightarrow> GovPage list \<Rightarrow> GovPage list" where
  "process_each svc k [] = []"
| "process_each svc k (page # batch) = process_page svc k page # process_each svc (Suc k) batch"

definition process_batch :: "service \<Rightarrow> GovPage list \<Rightarrow> nat \<Rightarrow> nat \<Rightarrow> GovPage list" where
  "process_batch svc pages start_idx batch_size =
     (let end_idx = min (start_idx + batch_size) (length pages);
          batch = take (end_idx - start_idx) (drop start_idx pages)
      in process_each svc start_idx batch)"

subsection \<open>main\<close>

text \<open>The loop of main, \<^verbatim>\<open>for i in range(0, len(pages), batch_size)\<close>, from index \<open>i\<close>:
  \<open>processed_pages\<close> grows by the batch, and the run sleeps a second when another
  batch follows. The trace records each call of \<^verbatim>\<open>process_batch\<close> and each sleep.\<close>

function synth_batches ::
  "service \<Rightarrow> GovPage list \<Rightarrow> nat \<Rightarrow> nat \<Rightarrow> event list \<Rightarrow> GovPage list \<times> event list" where
  "synth_batches svc pages batch_size i tr =
     (if batch_size = 0 \<or> length pages \<le> i then ([], tr)
      else
        let batch = process_batch svc pages i batch_size;
            tr1 = tr @ [ProcessBatch i];
            tr2 = (if i + batch_size < length pages then tr1 @ [Sleep 1] else tr1)
        in case synth_batches svc pages batch_size (i + batch_size) tr2 of
             (rest, tr3) \<Rightarrow> (batch @ rest, tr3))"
  by pat_completeness auto
termination
  by (relation "measure (\<lambda>(svc, pages, batch_size, i, tr). length pages - i)") auto

declare synth_batches.simps [simp del]

text \<open>main of generate\_synthetic\_data.py, from the loaded pages: the list written to
  the output file, the trace, and the exception that ends the run after the file
  is written (the averages divide by the number of pages).\<close>

record synth_run =
  saved :: "GovPage list"
  events :: "event list"
  raised :: "exn option"

definition generate_synthetic_data_main :: "service \<Rightarrow> GovPage list \<Rightarrow> synth_run" where
  "generate_synthetic_data_main svc pages =
     (case synth_batches svc pages 10 0 [] of
        (processed_pages, tr) \<Rightarrow>
          \<lparr>saved = processed_pages, events = tr,
           raised = (if processed_pages = [] then Some ZeroDivisionError else None)\<rparr>)"

section \<open>What the properties speak about\<close>

subsection \<open>Readings of the state\<close>

text \<open>The body a response carries under \<^verbatim>\<open>details\<close>, before validation.\<close>

definition details_body :: "dict \<Rightarrow> json option" where
  "details_body response =
     (case map_of response ''details'' of Some (JObj d) \<Rightarrow> map_of d ''body'' | _ \<Rightarrow> None)"

text \<open>The body a response carries after the normalization of guides (nothing when
  the normalization raises).\<close>

definition normalized_body :: "library \<Rightarrow> dict \<Rightarrow> json option" where
  "normalized_body L response =
     (case normalize_guide L response of Inl e \<Rightarrow> None | Inr response' \<Rightarrow> details_body response')"

text \<open>A part of a guide: whether it has a body (\<^verbatim>\<open>if part.get('body')\<close>), its body,
  and whether it is a part the loop can take: a dict whose body, when true, is a
  string.\<close>

definition part_has_body :: "json \<Rightarrow> bool" where
  "part_has_body p = (case p of JObj part \<Rightarrow> get_truthy part ''body'' | _ \<Rightarrow> False)"

definition part_body :: "json \<Rightarrow> string" where
  "part_body p =
     (case p of
        JObj part \<Rightarrow> (case map_of part ''body'' of Some (JStr b) \<Rightarrow> b | _ \<Rightarrow> [])
      | _ \<Rightarrow> [])"

definition part_ok :: "json \<Rightarrow> bool" where
  "part_ok p =
     (case p of
        JObj part \<Rightarrow>
          (case map_of part ''body'' of
             None \<Rightarrow> True
           | Some (JStr b) \<Rightarrow> True
           | Some v \<Rightarrow> \<not> truthy v)
      | _ \<Rightarrow> False)"

text \<open>The heading of a part as the code prints it: the default stands in for a
  title that is absent, and for no other.\<close>

definition code_title :: "library \<Rightarrow> json \<Rightarrow> string" where
  "code_title L p =
     (case p of
        JObj part \<Rightarrow>
          (case map_of part ''title'' of
             None \<Rightarrow> ''Untitled Section''
           | Some (JStr t) \<Rightarrow> t
           | Some v \<Rightarrow> py_str L v)
      | _ \<Rightarrow> [])"

text \<open>The heading of a part in the words of the specification,
  \<^verbatim>\<open>part.title or "Untitled Section"\<close>: the default stands in for a title that is
  absent or empty.\<close>

definition spec_title :: "library \<Rightarrow> json \<Rightarrow> string" where
  "spec_title L p =
     (case p of
        JObj part \<Rightarrow>
          (case map_of part ''title'' of
             None \<Rightarrow> ''Untitled Section''
           | Some v \<Rightarrow> if truthy v then format_value L v else ''Untitled Section'')
      | _ \<Rightarrow> [])"

text \<open>The concatenation, in part order, over the parts that have a body.\<close>

definition sections :: "(json \<Rightarrow> string) \<Rightarrow> json list \<Rightarrow> string" where
  "sections title_of ps =
     concat (map (\<lambda>p. ''\<newline>\<newline>## '' @ title_of p @ ''\<newline>\<newline>'' @ part_body p)
                 (filter part_has_body ps))"

text \<open>\<^verbatim>\<open>skipped_types.get(t, 0)\<close>.\<close>

definition skip_counter :: "(string \<rightharpoonup> nat) \<Rightarrow> string \<Rightarrow> nat" where
  "skip_counter skipped_types t = (case skipped_types t of None \<Rightarrow> 0 | Some c \<Rightarrow> c)"

text \<open>A request that failed, that is one for which a \<^verbatim>\<open>RequestException\<close> reaches
  the \<^verbatim>\<open>except\<close>: the call raised, or the status makes \<^verbatim>\<open>raise_for_status\<close> raise,
  or the body is not JSON. A 429 is the answer that is retried.\<close>

definition request_failed :: "outcome \<Rightarrow> bool" where
  "request_failed r =
     (case r of RequestException \<Rightarrow> True | Response st b \<Rightarrow> raise_for_status st \<or> b = None)"

definition is_429 :: "outcome \<Rightarrow> bool" where
  "is_429 r = (case r of RequestException \<Rightarrow> False | Response st b \<Rightarrow> st = 429)"

text \<open>
  The query in the words of the claim, with \<open>n\<close> the number of requests sent so
  far. A path is asked once, and once more when the first answer is a 429
  (\<open>requests_for\<close>); its result is read from the last of these answers
  (\<open>final_answer\<close>). \<open>answers\<close> are the results of asking the paths one after the
  other, whatever the answers to the paths before were, \<open>asked\<close> are the paths of the
  requests this sends, and \<open>sent_before\<close> is the number of requests sent when the
  path at position \<open>k\<close> is reached. \<open>requested\<close> reads the paths of the requests off
  a trace.
\<close>

definition final_answer :: "web \<Rightarrow> nat \<Rightarrow> string \<Rightarrow> outcome" where
  "final_answer web n path =
     (if is_429 (respond web n path) then respond web (Suc n) path else respond web n path)"

definition requests_for :: "web \<Rightarrow> nat \<Rightarrow> string \<Rightarrow> nat" where
  "requests_for web n path = (if is_429 (respond web n path) then 2 else 1)"

fun answers :: "web \<Rightarrow> nat \<Rightarrow> string list \<Rightarrow> (string \<times> dict option) list" where
  "answers web n [] = []"
| "answers web n (path # paths) =
     read_response path (final_answer web n path) #
     answers web (n + requests_for web n path) paths"

fun asked :: "web \<Rightarrow> nat \<Rightarrow> string list \<Rightarrow> string list" where
  "asked web n [] = []"
| "asked web n (path # paths) =
     replicate (requests_for web n path) path @ asked web (n + requests_for web n path) paths"

fun sent_before :: "web \<Rightarrow> nat \<Rightarrow> string list \<Rightarrow> nat \<Rightarrow> nat" where
  "sent_before web n paths 0 = n"
| "sent_before web n [] (Suc k) = n"
| "sent_before web n (path # paths) (Suc k) =
     sent_before web (n + requests_for web n path) paths k"

primrec requested :: "event list \<Rightarrow> string list" where
  "requested [] = []"
| "requested (e # es) = (case e of Get path \<Rightarrow> path # requested es | _ \<Rightarrow> requested es)"

text \<open>The clock readings that open the batches of a trace, and its sleeps.\<close>

primrec batch_starts :: "event list \<Rightarrow> rat list" where
  "batch_starts [] = []"
| "batch_starts (e # es) =
     (case e of BatchStart t \<Rightarrow> t # batch_starts es | _ \<Rightarrow> batch_starts es)"

primrec sleeps :: "event list \<Rightarrow> rat list" where
  "sleeps [] = []"
| "sleeps (e # es) = (case e of Sleep d \<Rightarrow> d # sleeps es | _ \<Rightarrow> sleeps es)"

text \<open>Readings that start at \<open>lo\<close> or later and lie a second or more apart.\<close>

fun spaced_after :: "rat \<Rightarrow> rat list \<Rightarrow> bool" where
  "spaced_after lo [] = True"
| "spaced_after lo (t # ts) = (lo \<le> t \<and> spaced_after (t + 1) ts)"

text \<open>A page of the Synthesizer: whether it has a body (\<^verbatim>\<open>if page.details.body\<close>), and
  the body. A call of the service failed when it raised or parsed nothing.\<close>

definition has_body :: "GovPage \<Rightarrow> bool" where
  "has_body page = (case body (details page) of None \<Rightarrow> False | Some b \<Rightarrow> b \<noteq> [])"

definition page_body :: "GovPage \<Rightarrow> string" where
  "page_body page = (case body (details page) of None \<Rightarrow> [] | Some b \<Rightarrow> b)"

definition call_failed :: "'a reply \<Rightarrow> bool" where
  "call_failed r = (case r of Raised \<Rightarrow> True | Parsed None \<Rightarrow> True | Parsed (Some x) \<Rightarrow> False)"

text \<open>The trace of the batches \<open>j\<close>, ..., \<open>B - 1\<close> of ten records, with a sleep of one
  second after every batch but the last.\<close>

definition batches_paced :: "nat \<Rightarrow> nat \<Rightarrow> event list" where
  "batches_paced j B =
     concat (map (\<lambda>k. if Suc k < B then [ProcessBatch (10 * k), Sleep 1]
                        else [ProcessBatch (10 * k)]) [j..<B])"

subsection \<open>Inputs for the concrete runs\<close>

text \<open>An instance of the library parameters for running the model on concrete
  inputs: it refuses every value that is not of the declared type, and its
  \<open>html2text_handle\<close> returns the text as it is.\<close>

definition plain_library :: library where
  "plain_library =
     \<lparr>py_str = (\<lambda>v. case v of JBool b \<Rightarrow> (if b then ''True'' else ''False'') | _ \<Rightarrow> ''None''),
      html2text_handle = (\<lambda>s. s),
      str_validator = (\<lambda>v. None),
      bool_validator = (\<lambda>v. None),
      datetime_validator = (\<lambda>v. None)\<rparr>"

text \<open>A response of the content API with the fields the model requires, and parts
  of a guide.\<close>

definition answer_page :: "string \<Rightarrow> json \<Rightarrow> dict" where
  "answer_page doc_type det =
     [(''title'', JStr ''Bank holidays''),
      (''base_path'', JStr ''/bank-holidays''),
      (''content_id'', JStr ''58f79dbd''),
      (''document_type'', JStr doc_type),
      (''schema_name'', JStr ''answer''),
      (''details'', det),
      (''links'', JObj [])]"

definition parts_two :: "json list" where
  "parts_two =
     [JObj [(''title'', JStr ''Overview''), (''body'', JStr ''<p>a</p>'')],
      JObj [(''title'', JStr ''Empty''), (''body'', JStr '''')],
      JObj [(''body'', JStr ''<p>b</p>'')]]"

definition parts_empty_title :: "json list" where
  "parts_empty_title = [JObj [(''title'', JStr ''''), (''body'', JStr ''<p>x</p>'')]]"

definition parts_no_body :: "json list" where
  "parts_no_body = [JObj [(''title'', JStr ''Overview'')], JObj [(''title'', JStr ''Fees''), (''body'', JStr '''')]]"

definition guide_page :: "json list \<Rightarrow> dict" where
  "guide_page ps = answer_page ''guide'' (JObj [(''body'', JStr ''<p>old</p>''), (''parts'', JArr ps)])"

text \<open>The empty \<open>skipped_types\<close>, and a content API for the concrete runs: \<^verbatim>\<open>/busy\<close> answers 429 to the first
  request of the run and the page after it, \<^verbatim>\<open>/no-body\<close> is a page without a body,
  \<^verbatim>\<open>/old-page\<close> a redirect, and every other path but \<^verbatim>\<open>/bank-holidays\<close> is not
  found. A request takes a quarter of a second.\<close>

definition no_skips :: "string \<rightharpoonup> nat" where
  "no_skips = Map.empty"

definition dated :: json where
  "dated = JObj [(''body'', JStr ''<p>Dates</p>'')]"

definition sample_web :: web where
  "sample_web =
     \<lparr>respond = (\<lambda>n path.
         if path = ''/busy'' then (if n = 0 then Response 429 None
                                   else Response 200 (Some (answer_page ''answer'' dated)))
         else if path = ''/bank-holidays'' then Response 200 (Some (answer_page ''answer'' dated))
         else if path = ''/no-body'' then Response 200 (Some (answer_page ''answer'' (JObj [])))
         else if path = ''/old-page'' then Response 200 (Some (answer_page ''redirect'' JNull))
         else Response 404 None),
      latency = (\<lambda>n. 1 / 4)\<rparr>"

definition sample_column :: "string list" where
  "sample_column = [''/gone'', ''/bank-holidays'', ''/gone'', ''/no-body'', ''/bank-holidays'', ''/later'']"

text \<open>Pages and a service for the concrete runs of the Synthesizer: the service
  raises on the rewrite for the record at position 0, parses no snippets for the
  record at position 3, and answers every other request.\<close>

definition sample_page :: "string \<Rightarrow> string option \<Rightarrow> GovPage" where
  "sample_page t b =
     \<lparr>title = t, base_path = ''/bank-holidays'', content_id = ''58f79dbd'',
      description = None, document_type = ''answer'', schema_name = ''answer'', locale = ''en'',
      api_path = None, web_url = None,
      details = \<lparr>body = b, external_related_links = [], current = None, ended_on = None,
                 parts = None\<rparr>,
      links = \<lparr>organisations = Some [], parent = Some [], available_translations = Some []\<rparr>,
      public_updated_at = None, first_published_at = None, withdrawn = False,
      synthetic_data = None\<rparr>"

definition sample_service :: service where
  "sample_service =
     \<lparr>rewrite_reply = (\<lambda>k original_text.
         if k = 0 then Raised
         else Parsed (Some \<lparr>SynthesisedText.poorly_written_article = ''so like, '' @ original_text\<rparr>)),
      snippets_reply = (\<lambda>k original_text.
         if k = 3 then Parsed None
         else Parsed (Some \<lparr>snippets =
                [\<lparr>well_written_snippet = original_text,
                  badly_written_snippet = ''UM, '' @ original_text\<rparr>]\<rparr>))\<rparr>"

definition sample_pages :: "GovPage list" where
  "sample_pages =
     [sample_page ''first'' (Some ''Dates''), sample_page ''second'' (Some ''Fees''),
      sample_page ''third'' None, sample_page ''fourth'' (Some ''Forms'')]"

definition rewritten :: "string \<Rightarrow> SyntheticData" where
  "rewritten b =
     \<lparr>SyntheticData.poorly_written_article = ''so like, '' @ b,
      article_snippets = Some \<lparr>snippets =
        [\<lparr>well_written_snippet = b, badly_written_snippet = ''UM, '' @ b\<rparr>]\<rparr>\<rparr>"

section \<open>Properties of the Fetcher\<close>

subsection \<open>The combined body of a guide\<close>

lemma combine_parts_sections:
  "\<forall>p \<in> set ps. part_ok p \<Longrightarrow>
   combine_parts L ps acc = Inr (acc @ sections (code_title L) ps)"
proof (induction ps arbitrary: acc)
  case Nil
  then show ?case by (simp add: sections_def)
next
  case (Cons p ps)
  from Cons.prems obtain part where p: "p = JObj part"
    by (cases p) (auto simp: part_ok_def)
  from Cons.prems have rest: "\<forall>q \<in> set ps. part_ok q" by simp
  show ?case
  proof (cases "get_truthy part ''body''")
    case False
    then show ?thesis
      using Cons.IH [OF rest] p by (simp add: sections_def part_has_body_def)
  next
    case True
    with Cons.prems p obtain b where b: "map_of part ''body'' = Some (JStr b)"
      by (auto simp: part_ok_def get_truthy_def split: option.splits json.splits)
    have t: "format_value L (part_title part) = code_title L p"
      by (simp add: p format_value_def part_title_def code_title_def split: option.splits json.splits)
    show ?thesis
      using Cons.IH [OF rest] p True b t
      by (simp add: sections_def part_has_body_def part_body_def)
  qed
qed

lemma details_body_update:
  "details_body (AList.update ''details'' (JObj (AList.update ''body'' v d)) response) = Some v"
  by (simp add: details_body_def update_conv')

text \<open>
  C1, as the code has it. For a response of document type \<^verbatim>\<open>guide\<close> whose details
  carry a list of parts (each a dict whose body, when true, is a string), the body
  stored under \<^verbatim>\<open>details\<close> before validation is the concatenation, in part order
  and over exactly the parts with a non-empty body, of \<^verbatim>\<open>"\n\n## "\<close>, the part's
  title, \<^verbatim>\<open>"\n\n"\<close> and the part's body, where \<^verbatim>\<open>"Untitled Section"\<close> stands in for
  a title that is absent. The body the response had before is replaced.
\<close>

theorem guide_combined_body:
  assumes "map_of response ''document_type'' = Some (JStr ''guide'')"
    and "map_of response ''details'' = Some (JObj d)"
    and "map_of d ''parts'' = Some (JArr ps)"
    and "\<forall>p \<in> set ps. part_ok p"
  shows "normalized_body L response = Some (JStr (sections (code_title L) ps))"
  using assms combine_parts_sections [of ps L "[]"]
  by (simp add: normalized_body_def normalize_guide_def iterate_def details_body_update)

lemma sections_parts_two:
  "sections (code_title plain_library) parts_two =
     ''\<newline>\<newline>## Overview\<newline>\<newline><p>a</p>\<newline>\<newline>## Untitled Section\<newline>\<newline><p>b</p>''"
  by (simp add: sections_def parts_two_def part_has_body_def get_truthy_def part_body_def
                code_title_def)

theorem guide_combined_body_witness:
  "normalized_body plain_library (guide_page parts_two) =
     Some (JStr ''\<newline>\<newline>## Overview\<newline>\<newline><p>a</p>\<newline>\<newline>## Untitled Section\<newline>\<newline><p>b</p>'')"
proof -
  have 1: "map_of (guide_page parts_two) ''document_type'' = Some (JStr ''guide'')"
    by (simp add: guide_page_def answer_page_def)
  have 2: "map_of (guide_page parts_two) ''details'' =
             Some (JObj [(''body'', JStr ''<p>old</p>''), (''parts'', JArr parts_two)])"
    by (simp add: guide_page_def answer_page_def)
  have 3: "map_of [(''body'', JStr ''<p>old</p>''), (''parts'', JArr parts_two)] ''parts'' =
             Some (JArr parts_two)"
    by simp
  have 4: "\<forall>p \<in> set parts_two. part_ok p"
    by (simp add: parts_two_def part_ok_def)
  from guide_combined_body [OF 1 2 3 4, of plain_library] show ?thesis
    by (simp only: sections_parts_two)
qed

text \<open>
  C1 as stated lets the default stand in for an empty title too. A part with the
  title \<^verbatim>\<open>""\<close> gets the heading \<^verbatim>\<open>"## "\<close> from the code, since
  \<^verbatim>\<open>part.get('title', 'Untitled Section')\<close> finds the key.
\<close>

theorem guide_empty_title_counterexample:
  "normalized_body plain_library (guide_page parts_empty_title) =
     Some (JStr ''\<newline>\<newline>## \<newline>\<newline><p>x</p>'') \<and>
   sections (spec_title plain_library) parts_empty_title =
     ''\<newline>\<newline>## Untitled Section\<newline>\<newline><p>x</p>'' \<and>
   normalized_body plain_library (guide_page parts_empty_title) \<noteq>
     Some (JStr (sections (spec_title plain_library) parts_empty_title))"
  by (simp add: normalized_body_def normalize_guide_def guide_page_def answer_page_def parts_empty_title_def
                iterate_def get_truthy_def format_value_def part_title_def details_body_def
                sections_def spec_title_def part_has_body_def part_body_def)

subsection \<open>Excluded document types\<close>

text \<open>
  C2, as the code has it. A response that is read (its status does not raise) and
  whose document type is \<^verbatim>\<open>placeholder\<close>, \<^verbatim>\<open>redirect\<close>, \<^verbatim>\<open>government\<close> or
  \<^verbatim>\<open>mainstream_browse_page\<close> adds no record to \<open>gov_pages\<close>. For \<^verbatim>\<open>government\<close>
  and \<^verbatim>\<open>mainstream_browse_page\<close> the counter of that type in \<open>skipped_types\<close> grows
  by exactly one and no other counter changes; for \<^verbatim>\<open>placeholder\<close> and \<^verbatim>\<open>redirect\<close>,
  which batch\_query\_govuk\_api already turns into a missing result, no counter
  changes.
\<close>

theorem excluded_types_skipped:
  assumes "map_of data ''document_type'' = Some (JStr t)"
    and "\<not> raise_for_status st"
  shows "(t \<in> {''government'', ''mainstream_browse_page''} \<longrightarrow>
            process_result L (read_response path (Response st (Some data))) (gov_pages, skipped) =
              Inr (gov_pages, skipped(t \<mapsto> skip_counter skipped t + 1))) \<and>
         (t \<in> {''placeholder'', ''redirect''} \<longrightarrow>
            process_result L (read_response path (Response st (Some data))) (gov_pages, skipped) =
              Inr (gov_pages, skipped))"
  using assms
  by (auto simp: read_response_def process_result_def document_type_in_def SKIP_TYPES_def
                 count_skip_def skip_counter_def)

theorem excluded_types_skipped_witness:
  "process_result plain_library
     (read_response ''/government/people'' (Response 200 (Some (answer_page ''government'' JNull))))
     ([], Map.empty) = Inr ([], [''government'' \<mapsto> 1]) \<and>
   process_result plain_library
     (read_response ''/old-page'' (Response 200 (Some (answer_page ''placeholder'' JNull))))
     ([], [''government'' \<mapsto> 1]) = Inr ([], [''government'' \<mapsto> 1])"
proof -
  have ok: "\<not> raise_for_status 200" by (simp add: raise_for_status_def)
  have g: "map_of (answer_page ''government'' JNull) ''document_type'' = Some (JStr ''government'')"
    by (simp add: answer_page_def)
  have p: "map_of (answer_page ''placeholder'' JNull) ''document_type'' = Some (JStr ''placeholder'')"
    by (simp add: answer_page_def)
  show ?thesis
    using excluded_types_skipped [OF g ok, of plain_library "''/government/people''" "[]" Map.empty]
          excluded_types_skipped [OF p ok, of plain_library "''/old-page''" "[]" "[''government'' \<mapsto> 1]"]
    by (simp add: skip_counter_def)
qed

text \<open>
  C2 as stated has the counter of every excluded type grow by one. A redirect
  leaves \<open>skipped_types\<close> as it was: its counter is 0 before and after.
\<close>

theorem redirect_not_counted_counterexample:
  "process_result plain_library
     (read_response ''/old-page'' (Response 200 (Some (answer_page ''redirect'' JNull))))
     ([], no_skips) = Inr ([], no_skips) \<and>
   skip_counter no_skips ''redirect'' = 0"
  by (simp add: read_response_def process_result_def document_type_in_def answer_page_def
                raise_for_status_def skip_counter_def no_skips_def)

subsection \<open>A record without a body ends the run\<close>

lemma convert_body_exit:
  "body (details gov_page) = None \<or> body (details gov_page) = Some [] \<Longrightarrow>
   convert_body L gov_page = Inl (SystemExit 1)"
  by (auto simp: convert_body_def)

lemma process_results_append:
  "process_results L (pre @ post) s0 =
     (case process_results L pre s0 of Inl e \<Rightarrow> Inl e | Inr s \<Rightarrow> process_results L post s)"
  by (induction pre arbitrary: s0) (auto split: sum.splits)

lemma process_results_exit:
  assumes "process_results L pre s0 = Inr s"
    and "process_result L result s = Inl e"
  shows "process_results L (pre @ result # post) s0 = Inl e"
  using assms by (simp add: process_results_append)

lemma scrape_urls_main_exit:
  assumes "batch_query_govuk_api web (df_deduplicated column) 10 w = Inr (results, w')"
    and "process_results L results ([], Map.empty) = Inl e"
  shows "scrape_urls_main L web column w = Inl e"
  using assms by (simp add: scrape_urls_main_def process_pages_def)

text \<open>
  C3. When the results before a record are processed without an exit, and the
  record (after the normalization of guides and the validation) has no body or
  an empty one, the loop of process\_pages ends with \<^verbatim>\<open>sys.exit(1)\<close>, whatever
  results follow; a run of main whose query returned these results ends with the
  same exit, so nothing is written.
\<close>

theorem missing_body_aborts:
  assumes "process_results L pre s0 = Inr s"
    and "response \<noteq> []"
    and "\<not> document_type_in response SKIP_TYPES"
    and "normalize_guide L response = Inr response'"
    and "GovPage_init L response' = Some gov_page"
    and "body (details gov_page) = None \<or> body (details gov_page) = Some []"
  shows "process_results L (pre @ (path, Some response) # post) s0 = Inl (SystemExit 1) \<and>
         (batch_query_govuk_api web (df_deduplicated column) 10 w =
            Inr (pre @ (path, Some response) # post, w') \<and> s0 = ([], Map.empty) \<longrightarrow>
          scrape_urls_main L web column w = Inl (SystemExit 1))"
proof -
  have "process_result L (path, Some response) s = Inl (SystemExit 1)"
    using assms(2-5) convert_body_exit [OF assms(6), of L]
    by (simp add: process_result_def)
  from process_results_exit [OF assms(1) this]
  have "process_results L (pre @ (path, Some response) # post) s0 = Inl (SystemExit 1)" .
  then show ?thesis
    using scrape_urls_main_exit [of web column w "pre @ (path, Some response) # post" w' L "SystemExit 1"]
    by auto
qed

lemma answer_page_init:
  "GovPage_init plain_library (answer_page ''answer'' (JObj d)) =
     map_option (\<lambda>x.
       \<lparr>title = ''Bank holidays'', base_path = ''/bank-holidays'', content_id = ''58f79dbd'',
        description = None, document_type = ''answer'', schema_name = ''answer'', locale = ''en'',
        api_path = None, web_url = None, details = x,
        links = \<lparr>organisations = Some [], parent = Some [], available_translations = Some []\<rparr>,
        public_updated_at = None, first_published_at = None, withdrawn = False,
        synthetic_data = None\<rparr>) (GovPageDetails_init plain_library d)"
  by (cases "GovPageDetails_init plain_library d")
     (simp_all add: GovPage_init_def answer_page_def required_def optional_def defaulted_def
                optional_defaulted_def str_field_def model_field_def GovPageLinks_init_def)

lemma sample_paths: "df_deduplicated sample_column = [''/gone'', ''/bank-holidays'', ''/no-body'', ''/later'']"
  by (simp add: df_deduplicated_def drop_duplicates_def sample_column_def)

lemma sample_results:
  "fst (query_batches sample_web [''/gone'', ''/bank-holidays'', ''/no-body'', ''/later''] 10 0 (world0 0)) =
     [(''/gone'', None), (''/bank-holidays'', Some (answer_page ''answer'' dated))] @
     (''/no-body'', Some (answer_page ''answer'' (JObj []))) # [(''/later'', None)]"
  by (simp add: query_batches.simps world0_def query_path_def request_def sample_web_def
                read_response_def raise_for_status_def document_type_in_def answer_page_def sleep_def)

lemma details_init_dated:
  "GovPageDetails_init plain_library [(''body'', JStr ''<p>Dates</p>'')] =
     Some \<lparr>body = Some ''<p>Dates</p>'', external_related_links = [], current = None,
           ended_on = None, parts = None\<rparr>"
  by (simp add: GovPageDetails_init_def optional_def defaulted_def str_field_def)

lemma details_init_empty:
  "GovPageDetails_init plain_library [] =
     Some \<lparr>body = None, external_related_links = [], current = None,
           ended_on = None, parts = None\<rparr>"
  by (simp add: GovPageDetails_init_def optional_def defaulted_def)

lemma normalize_answer: "normalize_guide L (answer_page ''answer'' det) = Inr (answer_page ''answer'' det)"
  by (simp add: normalize_guide_def answer_page_def)

lemma answer_not_skipped: "\<not> document_type_in (answer_page ''answer'' det) SKIP_TYPES"
  by (simp add: document_type_in_def answer_page_def SKIP_TYPES_def)

lemma answer_not_empty: "answer_page doc_type det \<noteq> []"
  by (simp add: answer_page_def)

theorem missing_body_aborts_witness:
  "process_results plain_library
     ([(''/gone'', None), (''/bank-holidays'', Some (answer_page ''answer'' dated))] @
      (''/no-body'', Some (answer_page ''answer'' (JObj []))) # [(''/later'', None)])
     ([], Map.empty) = Inl (SystemExit 1) \<and>
   scrape_urls_main plain_library sample_web sample_column (world0 0) = Inl (SystemExit 1)"
proof -
  let ?pre = "[(''/gone'', None), (''/bank-holidays'', Some (answer_page ''answer'' dated))]"
  let ?post = "[(''/later'', None :: dict option)]"
  let ?nb = "answer_page ''answer'' (JObj [])"
  have "\<exists>s. process_results plain_library ?pre ([], Map.empty) = Inr s"
    by (simp add: process_result_def answer_not_empty answer_not_skipped normalize_answer
                  dated_def answer_page_init details_init_dated convert_body_def)
  then obtain s where pre: "process_results plain_library ?pre ([], Map.empty) = Inr s" ..
  obtain gp where gp: "GovPage_init plain_library ?nb = Some gp" and b: "body (details gp) = None"
    by (simp add: answer_page_init details_init_empty)
  have "\<exists>w'. batch_query_govuk_api sample_web (df_deduplicated sample_column) 10 (world0 0) =
          Inr (?pre @ (''/no-body'', Some ?nb) # ?post, w')"
    using sample_results
    by (simp add: batch_query_govuk_api_def sample_paths prod_eq_iff)
  then obtain w' where bq: "batch_query_govuk_api sample_web (df_deduplicated sample_column) 10 (world0 0) =
          Inr (?pre @ (''/no-body'', Some ?nb) # ?post, w')" ..
  from b have b': "body (details gp) = None \<or> body (details gp) = Some []" by simp
  show ?thesis
    using missing_body_aborts [OF pre answer_not_empty answer_not_skipped normalize_answer gp b',
            of "''/no-body''" ?post sample_web sample_column "world0 0" w'] bq
    by simp
qed

subsection \<open>A guide without bodies ends the run\<close>

lemma GovPageDetails_init_body:
  "GovPageDetails_init L d = Some x \<Longrightarrow> map_of d ''body'' = Some (JStr b) \<Longrightarrow> body x = Some b"
  by (auto simp: GovPageDetails_init_def optional_def str_field_def split: Option.bind_splits)

lemma GovPage_init_body:
  assumes "GovPage_init L response = Some gov_page"
    and "details_body response = Some (JStr b)"
  shows "body (details gov_page) = Some b"
proof -
  from assms(2) obtain d where d: "map_of response ''details'' = Some (JObj d)"
    and b: "map_of d ''body'' = Some (JStr b)"
    by (auto simp: details_body_def split: option.splits json.splits)
  from assms(1) d obtain x where x: "GovPageDetails_init L d = Some x" and "details gov_page = x"
    by (auto simp: GovPage_init_def required_def model_field_def split: Option.bind_splits)
  with GovPageDetails_init_body [OF x b] show ?thesis by simp
qed

lemma combine_parts_no_body:
  "\<forall>p \<in> set ps. \<not> part_has_body p \<Longrightarrow>
   combine_parts L ps acc = Inr acc \<or> combine_parts L ps acc = Inl AttributeError"
proof (induction ps arbitrary: acc)
  case Nil
  then show ?case by simp
next
  case (Cons p ps)
  then show ?case by (cases p) (auto simp: part_has_body_def)
qed

lemma guide_not_skipped:
  "map_of response ''document_type'' = Some (JStr ''guide'') \<Longrightarrow>
   \<not> document_type_in response SKIP_TYPES"
  by (simp add: document_type_in_def SKIP_TYPES_def)

lemma sections_no_body: "\<forall>p \<in> set ps. \<not> part_has_body p \<Longrightarrow> sections title_of ps = []"
  by (simp add: sections_def)

text \<open>
  C10. For a response of document type \<^verbatim>\<open>guide\<close> whose list of parts holds no part
  with a non-empty body: the normalization stores the empty string as the body
  (when the parts are dicts), the step of the loop for this response is
  \<^verbatim>\<open>sys.exit(1)\<close>, and so is the whole loop once the results before it are
  processed: the run is ended, the record is not skipped.
\<close>

theorem guide_without_bodies_aborts:
  assumes "map_of response ''document_type'' = Some (JStr ''guide'')"
    and "map_of response ''details'' = Some (JObj d)"
    and "map_of d ''parts'' = Some (JArr ps)"
    and "\<forall>p \<in> set ps. \<not> part_has_body p"
    and "process_results L pre s0 = Inr s"
  shows "((\<forall>p \<in> set ps. part_ok p) \<longrightarrow> normalized_body L response = Some (JStr [])) \<and>
         process_result L (path, Some response) s = Inl (SystemExit 1) \<and>
         process_results L (pre @ (path, Some response) # post) s0 = Inl (SystemExit 1)"
proof -
  let ?r' = "AList.update ''details'' (JObj (AList.update ''body'' (JStr []) d)) response"
  have ne: "response \<noteq> []" using assms(1) by auto
  have ns: "\<not> document_type_in response SKIP_TYPES"
    using assms(1) by (rule guide_not_skipped)
  have norm: "normalize_guide L response = Inr ?r' \<or> normalize_guide L response = Inl AttributeError"
    using assms(1-3) combine_parts_no_body [OF assms(4), of L "[]"]
    by (auto simp: normalize_guide_def iterate_def)
  have exit: "process_result L (path, Some response) s = Inl (SystemExit 1)"
  proof (cases "normalize_guide L response")
    case (Inl e)
    then show ?thesis using ne ns by (simp add: process_result_def)
  next
    case (Inr r)
    with norm have r: "r = ?r'" by simp
    show ?thesis
    proof (cases "GovPage_init L r")
      case None
      then show ?thesis using ne ns Inr by (simp add: process_result_def)
    next
      case (Some gov_page)
      have "details_body r = Some (JStr [])" by (simp add: r details_body_update)
      from GovPage_init_body [OF Some this]
      have "convert_body L gov_page = Inl (SystemExit 1)" by (simp add: convert_body_def)
      then show ?thesis using ne ns Inr Some by (simp add: process_result_def)
    qed
  qed
  have body: "(\<forall>p \<in> set ps. part_ok p) \<longrightarrow> normalized_body L response = Some (JStr [])"
  proof
    assume ok: "\<forall>p \<in> set ps. part_ok p"
    from combine_parts_sections [OF ok, of L "[]"] sections_no_body [OF assms(4), of "code_title L"]
         assms(1-3)
    show "normalized_body L response = Some (JStr [])"
      by (simp add: normalized_body_def normalize_guide_def iterate_def details_body_update)
  qed
  from process_results_exit [OF assms(5) exit]
  have "process_results L (pre @ (path, Some response) # post) s0 = Inl (SystemExit 1)" .
  with exit body show ?thesis by simp
qed

theorem guide_without_bodies_aborts_witness:
  "normalized_body plain_library (guide_page parts_no_body) = Some (JStr []) \<and>
   process_results plain_library
     ([(''/gone'', None)] @ (''/guide'', Some (guide_page parts_no_body)) #
      [(''/bank-holidays'', Some (answer_page ''answer'' dated))])
     ([], Map.empty) = Inl (SystemExit 1)"
proof -
  have 1: "map_of (guide_page parts_no_body) ''document_type'' = Some (JStr ''guide'')"
    by (simp add: guide_page_def answer_page_def)
  have 2: "map_of (guide_page parts_no_body) ''details'' =
             Some (JObj [(''body'', JStr ''<p>old</p>''), (''parts'', JArr parts_no_body)])"
    by (simp add: guide_page_def answer_page_def)
  have 3: "map_of [(''body'', JStr ''<p>old</p>''), (''parts'', JArr parts_no_body)] ''parts'' =
             Some (JArr parts_no_body)"
    by simp
  have 4: "\<forall>p \<in> set parts_no_body. \<not> part_has_body p"
    by (simp add: parts_no_body_def part_has_body_def get_truthy_def)
  have 5: "process_results plain_library [(''/gone'', None)] ([], Map.empty) = Inr ([], Map.empty)"
    by (simp add: process_result_def)
  have 6: "\<forall>p \<in> set parts_no_body. part_ok p"
    by (simp add: parts_no_body_def part_ok_def)
  from guide_without_bodies_aborts [OF 1 2 3 4 5, of "''/guide''"
         "[(''/bank-holidays'', Some (answer_page ''answer'' dated))]"] 6
  show ?thesis by simp
qed

subsection \<open>Retry and failure of a request\<close>

lemma batch_starts_append: "batch_starts (xs @ ys) = batch_starts xs @ batch_starts ys"
  by (induction xs) (auto split: event.splits)



lemma query_batches_unfold:
  assumes "0 < bs" and "i < length paths"
    and "query_paths web (take bs (drop i paths))
           (w\<lparr>trace := trace w @ [BatchStart (clock w)]\<rparr>) = (rs, w1)"
  shows "query_batches web paths bs i w =
     (rs @ fst (query_batches web paths bs (i + bs)
                  (if clock w1 - clock w < 1 then sleep (1 - (clock w1 - clock w)) w1 else w1)),
      snd (query_batches web paths bs (i + bs)
                  (if clock w1 - clock w < 1 then sleep (1 - (clock w1 - clock w)) w1 else w1)))"
  using assms by (subst query_batches.simps) (simp add: Let_def split: prod.splits)

lemma query_batches_done: "length paths \<le> i \<Longrightarrow> query_batches web paths bs i w = ([], w)"
  by (subst query_batches.simps) simp



lemma read_response_failed: "request_failed r \<Longrightarrow> read_response path r = (path, None)"
  by (auto simp: request_failed_def read_response_def split: outcome.splits)

lemma query_path_retry:
  assumes "is_429 (respond web (sent w) path)"
  shows "fst (query_path web path w) = read_response path (respond web (Suc (sent w)) path) \<and>
         trace (snd (query_path web path w)) = trace w @ [Get path, Sleep 5, Get path]"
  using assms
  by (auto simp: query_path_def request_def sleep_def is_429_def split: outcome.splits)

lemma query_path_once:
  assumes "\<not> is_429 (respond web (sent w) path)"
  shows "fst (query_path web path w) = read_response path (respond web (sent w) path) \<and>
         trace (snd (query_path web path w)) = trace w @ [Get path]"
  using assms
  by (auto simp: query_path_def request_def is_429_def read_response_def split: outcome.splits)

lemma requested_append: "requested (xs @ ys) = requested xs @ requested ys"
  by (induction xs) (auto split: event.splits)

lemma query_path_answer:
  "fst (query_path web path w) = read_response path (final_answer web (sent w) path) \<and>
   sent (snd (query_path web path w)) = sent w + requests_for web (sent w) path \<and>
   requested (trace (snd (query_path web path w))) =
     requested (trace w) @ replicate (requests_for web (sent w) path) path"
  by (auto simp: query_path_def request_def sleep_def is_429_def final_answer_def
                 requests_for_def read_response_def requested_append numeral_2_eq_2
           split: outcome.splits)

lemma query_paths_answers:
  "fst (query_paths web ps w) = answers web (sent w) ps \<and>
   sent (snd (query_paths web ps w)) = sent_before web (sent w) ps (length ps) \<and>
   requested (trace (snd (query_paths web ps w))) = requested (trace w) @ asked web (sent w) ps"
proof (induction ps arbitrary: w)
  case Nil
  then show ?case by simp
next
  case (Cons p ps)
  obtain r w1 where q: "query_path web p w = (r, w1)" by (cases "query_path web p w")
  obtain rs w2 where qs: "query_paths web ps w1 = (rs, w2)" by (cases "query_paths web ps w1")
  from query_path_answer [of web p w] q
  have r: "r = read_response p (final_answer web (sent w) p)"
    and s: "sent w1 = sent w + requests_for web (sent w) p"
    and t: "requested (trace w1) = requested (trace w) @ replicate (requests_for web (sent w) p) p"
    by simp_all
  from Cons.IH [of w1] qs
  have rs: "rs = answers web (sent w1) ps"
    and s2: "sent w2 = sent_before web (sent w1) ps (length ps)"
    and t2: "requested (trace w2) = requested (trace w1) @ asked web (sent w1) ps"
    by simp_all
  show ?case using q qs r s t rs s2 t2 by simp
qed

lemma answers_append:
  "answers web n (xs @ ys) = answers web n xs @ answers web (sent_before web n xs (length xs)) ys"
  by (induction xs arbitrary: n) auto

lemma asked_append:
  "asked web n (xs @ ys) = asked web n xs @ asked web (sent_before web n xs (length xs)) ys"
  by (induction xs arbitrary: n) auto

lemma sent_before_append:
  "sent_before web n (xs @ ys) (length xs + length ys) =
     sent_before web (sent_before web n xs (length xs)) ys (length ys)"
  by (induction xs arbitrary: n) auto

lemma answers_fst: "map fst (answers web n ps) = ps"
  by (induction ps arbitrary: n) (auto simp: read_response_def split: outcome.splits option.splits)

lemma answers_nth:
  "k < length ps \<Longrightarrow>
   answers web n ps ! k = read_response (ps ! k) (final_answer web (sent_before web n ps k) (ps ! k))"
proof (induction ps arbitrary: n k)
  case Nil
  then show ?case by simp
next
  case (Cons p ps)
  then show ?case by (cases k) auto
qed

lemma query_batches_answers:
  assumes "0 < bs"
  shows "fst (query_batches web paths bs i w) = answers web (sent w) (drop i paths) \<and>
         sent (snd (query_batches web paths bs i w)) =
           sent_before web (sent w) (drop i paths) (length (drop i paths)) \<and>
         requested (trace (snd (query_batches web paths bs i w))) =
           requested (trace w) @ asked web (sent w) (drop i paths)"
proof (induction "length paths - i" arbitrary: i w rule: less_induct)
  case less
  show ?case
  proof (cases "length paths \<le> i")
    case True
    then show ?thesis by (simp add: query_batches_done)
  next
    case False
    let ?w0 = "w\<lparr>trace := trace w @ [BatchStart (clock w)]\<rparr>"
    let ?batch = "take bs (drop i paths)"
    let ?rest = "drop (i + bs) paths"
    obtain rs w1 where q: "query_paths web ?batch ?w0 = (rs, w1)"
      by (cases "query_paths web ?batch ?w0")
    let ?w2 = "if clock w1 - clock w < 1 then sleep (1 - (clock w1 - clock w)) w1 else w1"
    from query_paths_answers [of web ?batch ?w0] q
    have rs: "rs = answers web (sent w) ?batch"
      and s1: "sent w1 = sent_before web (sent w) ?batch (length ?batch)"
      and t1: "requested (trace w1) = requested (trace w) @ asked web (sent w) ?batch"
      by (simp_all add: requested_append)
    have s2: "sent ?w2 = sent w1" and t2: "requested (trace ?w2) = requested (trace w1)"
      by (simp_all add: sleep_def requested_append)
    have dec: "length paths - (i + bs) < length paths - i" using False assms by simp
    from less [OF dec, of ?w2]
    have IH1: "fst (query_batches web paths bs (i + bs) ?w2) = answers web (sent ?w2) ?rest"
      and IH2: "sent (snd (query_batches web paths bs (i + bs) ?w2)) =
                  sent_before web (sent ?w2) ?rest (length ?rest)"
      and IH3: "requested (trace (snd (query_batches web paths bs (i + bs) ?w2))) =
                  requested (trace ?w2) @ asked web (sent ?w2) ?rest"
      by blast+
    have split: "drop i paths = ?batch @ ?rest"
      by (simp add: add.commute drop_drop [symmetric] del: drop_drop)
    have unf: "query_batches web paths bs i w =
                 (rs @ fst (query_batches web paths bs (i + bs) ?w2),
                  snd (query_batches web paths bs (i + bs) ?w2))"
      using False assms query_batches_unfold [OF _ _ q] by simp
    have a: "answers web (sent w) (drop i paths) =
               answers web (sent w) ?batch @ answers web (sent w1) ?rest"
      using answers_append [of web "sent w" ?batch ?rest] split s1 by simp
    have b: "asked web (sent w) (drop i paths) =
               asked web (sent w) ?batch @ asked web (sent w1) ?rest"
      using asked_append [of web "sent w" ?batch ?rest] split s1 by simp
    have c: "sent_before web (sent w) (drop i paths) (length (drop i paths)) =
               sent_before web (sent w1) ?rest (length ?rest)"
      using sent_before_append [of web "sent w" ?batch ?rest] split s1
      by (metis length_append)
    show ?thesis
      unfolding unf using IH1 IH2 IH3 rs t1 a b c by (simp add: s2 t2)
  qed
qed

lemma batch_query_answers:
  "\<exists>w'. batch_query_govuk_api web paths 10 w = Inr (answers web (sent w) paths, w') \<and>
        requested (trace w') = requested (trace w) @ asked web (sent w) paths"
  using query_batches_answers [of 10 web paths 0 w]
  by (simp add: batch_query_govuk_api_def prod_eq_iff)

text \<open>
  C4. For a path queried from a world \<open>w\<close>: when the first request is answered
  with status 429, the run sleeps 5 seconds and asks once more, and no third time
  (the trace grows by a request, a sleep of 5 and a request), and the result is
  read from the second answer; otherwise the path is asked once. A request that
  fails (it raises, its status raises, or its body is not JSON), the retry
  included, is recorded as \<open>(path, None)\<close>.

  For the whole query: batch\_query\_govuk\_api returns, whatever the requests do.
  Its results are \<open>answers\<close>: one for every path, in the order of the paths, each
  read from the final answer to that path's own requests, and \<open>(path, None)\<close>
  where that answer is a failure; the requests it sends are \<open>asked\<close>: one for
  every path, two for a path first answered with 429, in the order of the paths.
  So a failure is a missing result for its own path, and the paths after it are
  requested and recorded as if it had not happened.
\<close>

theorem rate_limit_retry_once:
  "(let r1 = respond web (sent w) path;
        r2 = respond web (Suc (sent w)) path;
        result = fst (query_path web path w);
        w' = snd (query_path web path w)
    in (is_429 r1 \<longrightarrow>
          trace w' = trace w @ [Get path, Sleep 5, Get path] \<and>
          result = read_response path r2 \<and>
          (request_failed r2 \<longrightarrow> result = (path, None))) \<and>
       (\<not> is_429 r1 \<longrightarrow>
          trace w' = trace w @ [Get path] \<and>
          result = read_response path r1 \<and>
          (request_failed r1 \<longrightarrow> result = (path, None)))) \<and>
   (\<exists>results w'. batch_query_govuk_api web paths 10 w = Inr (results, w') \<and>
      map fst results = paths \<and>
      results = answers web (sent w) paths \<and>
      requested (trace w') = requested (trace w) @ asked web (sent w) paths \<and>
      (\<forall>k < length paths.
         let n = sent_before web (sent w) paths k; p = paths ! k
         in results ! k = read_response p (final_answer web n p) \<and>
            (request_failed (final_answer web n p) \<longrightarrow> results ! k = (p, None))))"
proof -
  have one: "(let r1 = respond web (sent w) path;
        r2 = respond web (Suc (sent w)) path;
        result = fst (query_path web path w);
        w' = snd (query_path web path w)
    in (is_429 r1 \<longrightarrow>
          trace w' = trace w @ [Get path, Sleep 5, Get path] \<and>
          result = read_response path r2 \<and>
          (request_failed r2 \<longrightarrow> result = (path, None))) \<and>
       (\<not> is_429 r1 \<longrightarrow>
          trace w' = trace w @ [Get path] \<and>
          result = read_response path r1 \<and>
          (request_failed r1 \<longrightarrow> result = (path, None))))"
    using query_path_retry [of web w path] query_path_once [of web w path]
          read_response_failed [of "respond web (sent w) path" path]
          read_response_failed [of "respond web (Suc (sent w)) path" path]
    by (simp add: Let_def)
  from batch_query_answers [of web paths w]
  obtain w' where run: "batch_query_govuk_api web paths 10 w = Inr (answers web (sent w) paths, w')"
    and req: "requested (trace w') = requested (trace w) @ asked web (sent w) paths"
    by blast
  have each: "\<forall>k < length paths.
         let n = sent_before web (sent w) paths k; p = paths ! k
         in answers web (sent w) paths ! k = read_response p (final_answer web n p) \<and>
            (request_failed (final_answer web n p) \<longrightarrow>
               answers web (sent w) paths ! k = (p, None))"
    using answers_nth [of _ paths web "sent w"] read_response_failed
    by (simp add: Let_def)
  have "\<exists>results w'. batch_query_govuk_api web paths 10 w = Inr (results, w') \<and>
      map fst results = paths \<and>
      results = answers web (sent w) paths \<and>
      requested (trace w') = requested (trace w) @ asked web (sent w) paths \<and>
      (\<forall>k < length paths.
         let n = sent_before web (sent w) paths k; p = paths ! k
         in results ! k = read_response p (final_answer web n p) \<and>
            (request_failed (final_answer web n p) \<longrightarrow> results ! k = (p, None)))"
    using run req each answers_fst [of web "sent w" paths] by blast
  with one show ?thesis by blast
qed

lemma sample_answers:
  "answers sample_web 0 [''/gone'', ''/busy'', ''/bank-holidays''] =
     [(''/gone'', None), (''/busy'', Some (answer_page ''answer'' dated)),
      (''/bank-holidays'', Some (answer_page ''answer'' dated))]"
  "asked sample_web 0 [''/gone'', ''/busy'', ''/bank-holidays''] =
     [''/gone'', ''/busy'', ''/bank-holidays'']"
  "answers sample_web 0 [''/busy'', ''/gone'', ''/bank-holidays''] =
     [(''/busy'', Some (answer_page ''answer'' dated)), (''/gone'', None),
      (''/bank-holidays'', Some (answer_page ''answer'' dated))]"
  "asked sample_web 0 [''/busy'', ''/gone'', ''/bank-holidays''] =
     [''/busy'', ''/busy'', ''/gone'', ''/bank-holidays'']"
  by (simp_all add: final_answer_def requests_for_def sample_web_def is_429_def read_response_def
                    raise_for_status_def document_type_in_def answer_page_def numeral_2_eq_2)

lemma sample_respond:
  "respond sample_web 0 ''/busy'' = Response 429 None"
  "respond sample_web (Suc 0) ''/busy'' = Response 200 (Some (answer_page ''answer'' dated))"
  "respond sample_web 0 ''/gone'' = Response 404 None"
  by (simp_all add: sample_web_def)

lemma sample_read:
  "read_response path (Response 200 (Some (answer_page ''answer'' dated))) =
     (path, Some (answer_page ''answer'' dated))"
  "read_response path (Response 404 None) = (path, None)"
  by (simp_all add: read_response_def raise_for_status_def document_type_in_def answer_page_def)

theorem rate_limit_retry_once_witness:
  "trace (snd (query_path sample_web ''/busy'' (world0 0))) =
     [Get ''/busy'', Sleep 5, Get ''/busy''] \<and>
   fst (query_path sample_web ''/busy'' (world0 0)) =
     (''/busy'', Some (answer_page ''answer'' dated)) \<and>
   trace (snd (query_path sample_web ''/gone'' (world0 0))) = [Get ''/gone''] \<and>
   fst (query_path sample_web ''/gone'' (world0 0)) = (''/gone'', None) \<and>
   (\<exists>w'. batch_query_govuk_api sample_web [''/busy'', ''/gone'', ''/bank-holidays''] 10 (world0 0) =
        Inr ([(''/busy'', Some (answer_page ''answer'' dated)), (''/gone'', None),
              (''/bank-holidays'', Some (answer_page ''answer'' dated))], w') \<and>
      requested (trace w') = [''/busy'', ''/busy'', ''/gone'', ''/bank-holidays''])"
proof -
  have s: "sent (world0 0) = 0" "trace (world0 0) = []" by (simp_all add: world0_def)
  have busy: "is_429 (respond sample_web 0 ''/busy'')"
    and gone: "\<not> is_429 (respond sample_web 0 ''/gone'')"
    by (simp_all add: sample_respond is_429_def)
  from rate_limit_retry_once [of sample_web "world0 0" "''/busy''"
         "[''/busy'', ''/gone'', ''/bank-holidays'']"] busy
  have a: "trace (snd (query_path sample_web ''/busy'' (world0 0))) =
             [Get ''/busy'', Sleep 5, Get ''/busy'']"
    and a': "fst (query_path sample_web ''/busy'' (world0 0)) =
             (''/busy'', Some (answer_page ''answer'' dated))"
    and c: "\<exists>results w'.
        batch_query_govuk_api sample_web [''/busy'', ''/gone'', ''/bank-holidays''] 10 (world0 0) =
          Inr (results, w') \<and>
        results = [(''/busy'', Some (answer_page ''answer'' dated)), (''/gone'', None),
              (''/bank-holidays'', Some (answer_page ''answer'' dated))] \<and>
        requested (trace w') = [''/busy'', ''/busy'', ''/gone'', ''/bank-holidays'']"
    unfolding Let_def s sample_answers sample_respond sample_read by auto
  from rate_limit_retry_once [of sample_web "world0 0" "''/gone''" "[]"] gone
  have b: "trace (snd (query_path sample_web ''/gone'' (world0 0))) = [Get ''/gone'']"
    and b': "fst (query_path sample_web ''/gone'' (world0 0)) = (''/gone'', None)"
    unfolding Let_def s sample_respond sample_read by auto
  from a a' b b' c show ?thesis by blast
qed

subsection \<open>Deduplication of the paths\<close>






section \<open>Properties of the Synthesizer\<close>

subsection \<open>The saved list\<close>

lemma synth_batches_done: "length pages \<le> i \<Longrightarrow> synth_batches svc pages bs i tr = ([], tr)"
  by (subst synth_batches.simps) simp

lemma synth_batches_unfold:
  assumes "0 < bs" and "i < length pages"
  shows "synth_batches svc pages bs i tr =
     (process_batch svc pages i bs @
        fst (synth_batches svc pages bs (i + bs)
               (if i + bs < length pages then tr @ [ProcessBatch i, Sleep 1]
                else tr @ [ProcessBatch i])),
      snd (synth_batches svc pages bs (i + bs)
               (if i + bs < length pages then tr @ [ProcessBatch i, Sleep 1]
                else tr @ [ProcessBatch i])))"
  using assms by (subst synth_batches.simps) (simp add: Let_def split: prod.splits)

lemma process_each_length: "length (process_each svc k ps) = length ps"
  by (induction ps arbitrary: k) auto

lemma process_each_nth:
  "j < length ps \<Longrightarrow> process_each svc k ps ! j = process_page svc (k + j) (ps ! j)"
proof (induction ps arbitrary: k j)
  case Nil
  then show ?case by simp
next
  case (Cons p ps)
  then show ?case by (cases j) auto
qed

lemma process_each_append:
  "process_each svc k (xs @ ys) = process_each svc k xs @ process_each svc (k + length xs) ys"
  by (induction xs arbitrary: k) auto

lemma process_batch_eq:
  "process_batch svc pages i bs = process_each svc i (take bs (drop i pages))"
proof -
  have "take (min (i + bs) (length pages) - i) (drop i pages) = take bs (drop i pages)"
    by (cases "i + bs \<le> length pages") (simp_all add: min_def)
  then show ?thesis by (simp add: process_batch_def Let_def)
qed

lemma process_each_batches:
  "process_each svc i (drop i pages) =
     process_each svc i (take bs (drop i pages)) @
     process_each svc (i + bs) (drop (i + bs) pages)"
proof (cases "i + bs \<le> length pages")
  case True
  have split: "drop i pages = take bs (drop i pages) @ drop (i + bs) pages"
    by (simp add: add.commute drop_drop [symmetric] del: drop_drop)
  from True have "length (take bs (drop i pages)) = bs" by simp
  then show ?thesis
    using process_each_append [of svc i "take bs (drop i pages)" "drop (i + bs) pages"] split
    by simp
next
  case False
  then show ?thesis by simp
qed

lemma synth_batches_fst:
  assumes "0 < bs"
  shows "fst (synth_batches svc pages bs i tr) = process_each svc i (drop i pages)"
proof (induction "length pages - i" arbitrary: i tr rule: less_induct)
  case less
  show ?case
  proof (cases "length pages \<le> i")
    case True
    then show ?thesis by (simp add: synth_batches_done)
  next
    case False
    let ?tr2 = "if i + bs < length pages then tr @ [ProcessBatch i, Sleep 1]
                else tr @ [ProcessBatch i]"
    have dec: "length pages - (i + bs) < length pages - i" using False assms by simp
    have unf: "fst (synth_batches svc pages bs i tr) =
                 process_batch svc pages i bs @ fst (synth_batches svc pages bs (i + bs) ?tr2)"
      using False assms synth_batches_unfold [of bs i pages svc tr] by simp
    show ?thesis
      unfolding unf less [OF dec, of ?tr2] process_batch_eq
      using process_each_batches [of svc i pages bs] by simp
  qed
qed

lemma saved_main: "saved (generate_synthetic_data_main svc pages) = process_each svc 0 pages"
  using synth_batches_fst [of 10 svc pages 0 "[]"]
  by (auto simp: generate_synthetic_data_main_def split: prod.splits)

lemma saved_length: "length (saved (generate_synthetic_data_main svc pages)) = length pages"
  by (simp add: saved_main process_each_length)

lemma saved_nth:
  "k < length pages \<Longrightarrow>
   saved (generate_synthetic_data_main svc pages) ! k = process_page svc k (pages ! k)"
  by (simp add: saved_main process_each_nth)

lemma raised_main:
  "pages \<noteq> [] \<Longrightarrow> raised (generate_synthetic_data_main svc pages) = None"
  using saved_length [of svc pages]
  by (auto simp: generate_synthetic_data_main_def split: prod.splits)

subsection \<open>The step for one record\<close>

lemma process_page_frame:
  "process_page svc k page = page\<lparr>synthetic_data := synthetic_data (process_page svc k page)\<rparr>"
  by (simp add: process_page_def split: option.splits)

lemma process_page_details: "details (process_page svc k page) = details page"
  by (simp add: process_page_def split: option.splits)

lemma process_page_no_body: "\<not> has_body page \<Longrightarrow> process_page svc k page = page"
proof (cases "body (details page)")
  case None
  then show ?thesis by (simp add: process_page_def)
next
  case (Some b)
  assume "\<not> has_body page"
  with Some have "b = []" by (simp add: has_body_def)
  with Some show ?thesis by (simp add: process_page_def)
qed

lemma process_page_body:
  assumes "has_body page"
  shows "process_page svc k page =
     (case synthesise svc k (page_body page) of
        None \<Rightarrow> page
      | Some sd \<Rightarrow> page\<lparr>synthetic_data := Some sd\<rparr>)"
proof -
  from assms obtain b where b: "body (details page) = Some b" "b \<noteq> []"
    by (cases "body (details page)") (simp_all add: has_body_def)
  then have "page_body page = b" by (simp add: page_body_def)
  with b show ?thesis by (simp add: process_page_def)
qed

lemma synthesise_failed:
  "call_failed (rewrite_reply svc k b) \<or> call_failed (snippets_reply svc k b) \<Longrightarrow>
   synthesise svc k b = None"
  by (auto simp: synthesise_def call_failed_def get_synthetic_text_def get_article_snippets_def
           split: reply.splits option.splits)

lemma synthesise_parsed:
  "rewrite_reply svc k b = Parsed (Some t) \<Longrightarrow> snippets_reply svc k b = Parsed (Some sn) \<Longrightarrow>
   synthesise svc k b =
     Some \<lparr>SyntheticData.poorly_written_article = SynthesisedText.poorly_written_article t,
           article_snippets = Some sn\<rparr>"
  by (simp add: synthesise_def get_synthetic_text_def get_article_snippets_def)

lemma synthesise_Some:
  "synthesise svc k b = Some sd \<Longrightarrow>
   \<exists>t sn. rewrite_reply svc k b = Parsed (Some t) \<and> snippets_reply svc k b = Parsed (Some sn) \<and>
      sd = \<lparr>SyntheticData.poorly_written_article = SynthesisedText.poorly_written_article t,
            article_snippets = Some sn\<rparr>"
  by (auto simp: synthesise_def get_synthetic_text_def get_article_snippets_def
           split: reply.splits option.splits)

lemma process_page_failed:
  assumes "call_failed (rewrite_reply svc k (page_body page)) \<or>
           call_failed (snippets_reply svc k (page_body page))"
  shows "process_page svc k page = page"
proof (cases "has_body page")
  case True
  with synthesise_failed [OF assms] show ?thesis by (simp add: process_page_body)
next
  case False
  then show ?thesis by (rule process_page_no_body)
qed

lemma process_page_parsed:
  assumes "has_body page"
    and "rewrite_reply svc k (page_body page) = Parsed (Some t)"
    and "snippets_reply svc k (page_body page) = Parsed (Some sn)"
  shows "process_page svc k page =
     page\<lparr>synthetic_data :=
       Some \<lparr>SyntheticData.poorly_written_article = SynthesisedText.poorly_written_article t,
             article_snippets = Some sn\<rparr>\<rparr>"
  using synthesise_parsed [OF assms(2,3)] assms(1) by (simp add: process_page_body)

lemma process_page_augmentation:
  "synthetic_data (process_page svc k page) = synthetic_data page \<or>
   (\<exists>t sn. rewrite_reply svc k (page_body page) = Parsed (Some t) \<and>
      snippets_reply svc k (page_body page) = Parsed (Some sn) \<and>
      synthetic_data (process_page svc k page) =
        Some \<lparr>SyntheticData.poorly_written_article = SynthesisedText.poorly_written_article t,
              article_snippets = Some sn\<rparr>)"
proof (cases "has_body page")
  case False
  then show ?thesis by (simp add: process_page_no_body)
next
  case True
  show ?thesis
  proof (cases "synthesise svc k (page_body page)")
    case None
    with True show ?thesis by (simp add: process_page_body)
  next
    case (Some sd)
    from synthesise_Some [OF Some] Some True show ?thesis
      by (auto simp: process_page_body)
  qed
qed

lemma sample_bodies:
  "page_body (sample_page t b) = (case b of None \<Rightarrow> [] | Some x \<Rightarrow> x)"
  "has_body (sample_page t b) = (case b of None \<Rightarrow> False | Some x \<Rightarrow> x \<noteq> [])"
  "synthetic_data (sample_page t b) = None"
  "details (sample_page t b) =
     \<lparr>body = b, external_related_links = [], current = None, ended_on = None, parts = None\<rparr>"
  by (simp_all add: page_body_def has_body_def sample_page_def)

lemma sample_replies:
  "rewrite_reply sample_service k x =
     (if k = 0 then Raised
      else Parsed (Some \<lparr>SynthesisedText.poorly_written_article = ''so like, '' @ x\<rparr>))"
  "snippets_reply sample_service k x =
     (if k = 3 then Parsed None
      else Parsed (Some \<lparr>snippets =
             [\<lparr>well_written_snippet = x, badly_written_snippet = ''UM, '' @ x\<rparr>]\<rparr>))"
  by (simp_all add: sample_service_def)

subsection \<open>All or nothing\<close>

text \<open>
  C5. For the record at position \<open>k\<close> of the input and the record the run saves at
  that position: when one of the two calls fails (it raises or parses nothing),
  the saved record is the input record, untouched; a record that came without an
  augmentation is saved without one, or with the augmentation that holds the
  rewrite the first call returned and the snippets the second call returned, and
  it is saved without one when a call failed; when the record has a body and both
  calls return, that augmentation is attached.
\<close>

theorem augmentation_all_or_nothing:
  assumes "k < length pages"
  shows "(let page = pages ! k;
              page' = saved (generate_synthetic_data_main svc pages) ! k;
              b = page_body page
          in (call_failed (rewrite_reply svc k b) \<or> call_failed (snippets_reply svc k b) \<longrightarrow>
                page' = page) \<and>
             (synthetic_data page = None \<longrightarrow>
                synthetic_data page' = None \<or>
                (\<exists>t sn. rewrite_reply svc k b = Parsed (Some t) \<and>
                   snippets_reply svc k b = Parsed (Some sn) \<and>
                   synthetic_data page' =
                     Some \<lparr>SyntheticData.poorly_written_article =
                             SynthesisedText.poorly_written_article t,
                           article_snippets = Some sn\<rparr>)) \<and>
             (synthetic_data page = None \<and>
              (call_failed (rewrite_reply svc k b) \<or> call_failed (snippets_reply svc k b)) \<longrightarrow>
                synthetic_data page' = None) \<and>
             (has_body page \<and> rewrite_reply svc k b = Parsed (Some t) \<and>
              snippets_reply svc k b = Parsed (Some sn) \<longrightarrow>
                page' = page\<lparr>synthetic_data :=
                  Some \<lparr>SyntheticData.poorly_written_article =
                          SynthesisedText.poorly_written_article t,
                        article_snippets = Some sn\<rparr>\<rparr>))"
proof -
  let ?page = "pages ! k"
  let ?b = "page_body ?page"
  have out: "saved (generate_synthetic_data_main svc pages) ! k = process_page svc k ?page"
    using assms by (rule saved_nth)
  have a: "call_failed (rewrite_reply svc k ?b) \<or> call_failed (snippets_reply svc k ?b) \<longrightarrow>
             process_page svc k ?page = ?page"
    using process_page_failed [of svc k ?page] by blast
  have b: "synthetic_data ?page = None \<longrightarrow>
             synthetic_data (process_page svc k ?page) = None \<or>
             (\<exists>t sn. rewrite_reply svc k ?b = Parsed (Some t) \<and>
                snippets_reply svc k ?b = Parsed (Some sn) \<and>
                synthetic_data (process_page svc k ?page) =
                  Some \<lparr>SyntheticData.poorly_written_article =
                          SynthesisedText.poorly_written_article t,
                        article_snippets = Some sn\<rparr>)"
    using process_page_augmentation [of svc k ?page] by auto
  have c: "synthetic_data ?page = None \<and>
           (call_failed (rewrite_reply svc k ?b) \<or> call_failed (snippets_reply svc k ?b)) \<longrightarrow>
             synthetic_data (process_page svc k ?page) = None"
    using a by auto
  have d: "has_body ?page \<and> rewrite_reply svc k ?b = Parsed (Some t) \<and>
           snippets_reply svc k ?b = Parsed (Some sn) \<longrightarrow>
             process_page svc k ?page = ?page\<lparr>synthetic_data :=
                  Some \<lparr>SyntheticData.poorly_written_article =
                          SynthesisedText.poorly_written_article t,
                        article_snippets = Some sn\<rparr>\<rparr>"
    using process_page_parsed [of ?page svc k t sn] by blast
  from a b c d show ?thesis unfolding Let_def out by blast
qed

theorem augmentation_all_or_nothing_witness:
  "saved (generate_synthetic_data_main sample_service sample_pages) ! 0 =
     sample_page ''first'' (Some ''Dates'') \<and>
   saved (generate_synthetic_data_main sample_service sample_pages) ! 1 =
     (sample_page ''second'' (Some ''Fees''))\<lparr>synthetic_data := Some (rewritten ''Fees'')\<rparr> \<and>
   saved (generate_synthetic_data_main sample_service sample_pages) ! 3 =
     sample_page ''fourth'' (Some ''Forms'')"
proof -
  have l: "0 < length sample_pages" "Suc 0 < length sample_pages" "3 < length sample_pages"
    by (simp_all add: sample_pages_def)
  have p: "sample_pages ! 0 = sample_page ''first'' (Some ''Dates'')"
    "sample_pages ! Suc 0 = sample_page ''second'' (Some ''Fees'')"
    "sample_pages ! 3 = sample_page ''fourth'' (Some ''Forms'')"
    by (simp_all add: sample_pages_def)
  from augmentation_all_or_nothing [OF l(1), of sample_service]
  have 0: "saved (generate_synthetic_data_main sample_service sample_pages) ! 0 =
     sample_page ''first'' (Some ''Dates'')"
    by (simp add: Let_def p sample_bodies sample_replies call_failed_def)
  from augmentation_all_or_nothing [OF l(2), of sample_service
         "\<lparr>SynthesisedText.poorly_written_article = ''so like, Fees''\<rparr>"
         "\<lparr>snippets = [\<lparr>well_written_snippet = ''Fees'', badly_written_snippet = ''UM, Fees''\<rparr>]\<rparr>"]
  have 1: "saved (generate_synthetic_data_main sample_service sample_pages) ! 1 =
     (sample_page ''second'' (Some ''Fees''))\<lparr>synthetic_data := Some (rewritten ''Fees'')\<rparr>"
    by (simp add: Let_def p sample_bodies sample_replies call_failed_def rewritten_def)
  from augmentation_all_or_nothing [OF l(3), of sample_service]
  have 3: "saved (generate_synthetic_data_main sample_service sample_pages) ! 3 =
     sample_page ''fourth'' (Some ''Forms'')"
    by (simp add: Let_def p sample_bodies sample_replies call_failed_def)
  from 0 1 3 show ?thesis by simp
qed

subsection \<open>A failure stays with its record\<close>

text \<open>
  C6. For adjacent records \<open>N\<close> and \<open>N + 1\<close> with bodies, where a call fails for
  record \<open>N\<close> (which came without an augmentation) and both calls return for record
  \<open>N + 1\<close>: the run ends without an exception, it saves as many records as it
  read, the record at \<open>N\<close> is the input record, without an augmentation, the
  record at \<open>N + 1\<close> is the input record with the augmentation attached, and
  every saved record is what the step for its own position makes of the input
  record at that position.
\<close>

theorem failure_isolated:
  assumes "Suc N < length pages"
    and "has_body (pages ! N)"
    and "has_body (pages ! Suc N)"
    and "synthetic_data (pages ! N) = None"
    and "call_failed (rewrite_reply svc N (page_body (pages ! N))) \<or>
         call_failed (snippets_reply svc N (page_body (pages ! N)))"
    and "rewrite_reply svc (Suc N) (page_body (pages ! Suc N)) = Parsed (Some t)"
    and "snippets_reply svc (Suc N) (page_body (pages ! Suc N)) = Parsed (Some sn)"
  shows "(let run = generate_synthetic_data_main svc pages; out = saved run
          in raised run = None \<and>
             length out = length pages \<and>
             out ! N = pages ! N \<and>
             synthetic_data (out ! N) = None \<and>
             out ! Suc N =
               (pages ! Suc N)\<lparr>synthetic_data :=
                  Some \<lparr>SyntheticData.poorly_written_article =
                          SynthesisedText.poorly_written_article t,
                        article_snippets = Some sn\<rparr>\<rparr> \<and>
             (\<forall>k < length pages. out ! k = process_page svc k (pages ! k)))"
proof -
  from assms(1) have ne: "pages \<noteq> []" and n: "N < length pages" by auto
  have 1: "raised (generate_synthetic_data_main svc pages) = None"
    using ne by (rule raised_main)
  have 2: "saved (generate_synthetic_data_main svc pages) ! N = pages ! N"
    using saved_nth [OF n, of svc] process_page_failed [OF assms(5)] by simp
  have 3: "saved (generate_synthetic_data_main svc pages) ! Suc N =
             (pages ! Suc N)\<lparr>synthetic_data :=
                  Some \<lparr>SyntheticData.poorly_written_article =
                          SynthesisedText.poorly_written_article t,
                        article_snippets = Some sn\<rparr>\<rparr>"
    using saved_nth [OF assms(1), of svc] process_page_parsed [OF assms(3,6,7)] by simp
  have 4: "\<forall>k < length pages.
             saved (generate_synthetic_data_main svc pages) ! k = process_page svc k (pages ! k)"
    by (simp add: saved_nth)
  from 1 2 3 4 assms(4) show ?thesis
    unfolding Let_def by (simp add: saved_length)
qed

theorem failure_isolated_witness:
  "raised (generate_synthetic_data_main sample_service sample_pages) = None \<and>
   length (saved (generate_synthetic_data_main sample_service sample_pages)) = 4 \<and>
   saved (generate_synthetic_data_main sample_service sample_pages) ! 0 =
     sample_page ''first'' (Some ''Dates'') \<and>
   synthetic_data (saved (generate_synthetic_data_main sample_service sample_pages) ! 0) = None \<and>
   saved (generate_synthetic_data_main sample_service sample_pages) ! Suc 0 =
     (sample_page ''second'' (Some ''Fees''))\<lparr>synthetic_data := Some (rewritten ''Fees'')\<rparr>"
proof -
  have l: "Suc 0 < length sample_pages" by (simp add: sample_pages_def)
  have p: "sample_pages ! 0 = sample_page ''first'' (Some ''Dates'')"
    "sample_pages ! Suc 0 = sample_page ''second'' (Some ''Fees'')"
    "length sample_pages = 4"
    by (simp_all add: sample_pages_def)
  have 1: "has_body (sample_pages ! 0)" and 2: "has_body (sample_pages ! Suc 0)"
    and 3: "synthetic_data (sample_pages ! 0) = None"
    by (simp_all add: p sample_bodies)
  have 4: "call_failed (rewrite_reply sample_service 0 (page_body (sample_pages ! 0))) \<or>
           call_failed (snippets_reply sample_service 0 (page_body (sample_pages ! 0)))"
    by (simp add: sample_replies call_failed_def)
  have 5: "rewrite_reply sample_service (Suc 0) (page_body (sample_pages ! Suc 0)) =
             Parsed (Some \<lparr>SynthesisedText.poorly_written_article = ''so like, Fees''\<rparr>)"
    by (simp add: p sample_bodies sample_replies)
  have 6: "snippets_reply sample_service (Suc 0) (page_body (sample_pages ! Suc 0)) =
             Parsed (Some \<lparr>snippets =
               [\<lparr>well_written_snippet = ''Fees'', badly_written_snippet = ''UM, Fees''\<rparr>]\<rparr>)"
    by (simp add: p sample_bodies sample_replies)
  from failure_isolated [OF l 1 2 3 4 5 6] show ?thesis
    by (simp add: Let_def p rewritten_def sample_bodies)
qed

subsection \<open>Nothing but the augmentation changes\<close>

text \<open>
  C7. The list the Synthesizer saves has the length of the input; the record at
  each position is the input record at that position with at most the
  augmentation changed, its details (the body with them) are the input's, and a
  record without a body is saved as it came.
\<close>

theorem synthesizer_frame:
  "(let out = saved (generate_synthetic_data_main svc pages)
    in length out = length pages \<and>
       (\<forall>k < length pages.
          out ! k = (pages ! k)\<lparr>synthetic_data := synthetic_data (out ! k)\<rparr> \<and>
          details (out ! k) = details (pages ! k) \<and>
          (\<not> has_body (pages ! k) \<longrightarrow> out ! k = pages ! k)))"
proof -
  have "\<forall>k < length pages.
          process_page svc k (pages ! k) =
            (pages ! k)\<lparr>synthetic_data := synthetic_data (process_page svc k (pages ! k))\<rparr> \<and>
          details (process_page svc k (pages ! k)) = details (pages ! k) \<and>
          (\<not> has_body (pages ! k) \<longrightarrow> process_page svc k (pages ! k) = pages ! k)"
    using process_page_frame process_page_details process_page_no_body by blast
  then show ?thesis
    unfolding Let_def by (simp add: saved_length saved_nth)
qed

theorem synthesizer_frame_witness:
  "length (saved (generate_synthetic_data_main sample_service sample_pages)) = 4 \<and>
   saved (generate_synthetic_data_main sample_service sample_pages) ! 2 =
     sample_page ''third'' None \<and>
   details (saved (generate_synthetic_data_main sample_service sample_pages) ! 1) =
     \<lparr>body = Some ''Fees'', external_related_links = [], current = None, ended_on = None,
      parts = None\<rparr>"
proof -
  have p: "sample_pages ! 2 = sample_page ''third'' None"
    "sample_pages ! Suc 0 = sample_page ''second'' (Some ''Fees'')"
    "length sample_pages = 4"
    by (simp_all add: sample_pages_def)
  have "(2::nat) < 4" "Suc 0 < 4" by simp_all
  with synthesizer_frame [of sample_service sample_pages] show ?thesis
    by (simp add: Let_def p sample_bodies)
qed

section \<open>Pacing of the batches\<close>

lemma sleeps_append: "sleeps (xs @ ys) = sleeps xs @ sleeps ys"
  by (induction xs) (auto split: event.splits)

lemma query_path_clock:
  assumes "\<forall>n. 0 \<le> latency web n"
  shows "clock w \<le> clock (snd (query_path web path w))"
proof -
  have a: "0 \<le> latency web (sent w)" and b: "0 \<le> latency web (Suc (sent w))"
    using assms by simp_all
  show ?thesis
    using a b
    by (auto simp: query_path_def request_def sleep_def split: outcome.splits)
qed

lemma query_path_starts:
  "batch_starts (trace (snd (query_path web path w))) = batch_starts (trace w)"
  by (auto simp: query_path_def request_def sleep_def batch_starts_append split: outcome.splits)

lemma query_paths_clock:
  assumes "\<forall>n. 0 \<le> latency web n"
  shows "clock w \<le> clock (snd (query_paths web ps w))"
proof (induction ps arbitrary: w)
  case Nil
  then show ?case by simp
next
  case (Cons p ps)
  have "clock w \<le> clock (snd (query_path web p w))"
    using assms by (rule query_path_clock)
  also have "\<dots> \<le> clock (snd (query_paths web ps (snd (query_path web p w))))"
    by (rule Cons.IH)
  finally show ?case by (auto split: prod.splits)
qed

lemma query_paths_starts:
  "batch_starts (trace (snd (query_paths web ps w))) = batch_starts (trace w)"
proof (induction ps arbitrary: w)
  case Nil
  then show ?case by simp
next
  case (Cons p ps)
  show ?case
    using Cons.IH [of "snd (query_path web p w)"] query_path_starts [of web p w]
    by (auto split: prod.splits)
qed

lemma spaced_after_mono: "lo' \<le> lo \<Longrightarrow> spaced_after lo ts \<Longrightarrow> spaced_after lo' ts"
  by (cases ts) auto

lemma spaced_after_nth:
  "spaced_after lo ts \<Longrightarrow> Suc k < length ts \<Longrightarrow> ts ! k + 1 \<le> ts ! Suc k"
proof (induction ts arbitrary: lo k)
  case Nil
  then show ?case by simp
next
  case (Cons t ts)
  show ?case
  proof (cases k)
    case 0
    with Cons.prems show ?thesis by (cases ts) auto
  next
    case (Suc j)
    with Cons.prems Cons.IH [of "t + 1" j] show ?thesis by simp
  qed
qed

lemma spaced_after_last:
  "spaced_after lo ts \<Longrightarrow> ts \<noteq> [] \<Longrightarrow> lo + of_nat (length ts - 1) \<le> last ts"
proof (induction ts arbitrary: lo)
  case Nil
  then show ?case by simp
next
  case (Cons t ts)
  show ?case
  proof (cases ts)
    case Nil
    with Cons.prems show ?thesis by simp
  next
    case (Cons u us)
    with Cons.prems Cons.IH [of "t + 1"] show ?thesis by simp
  qed
qed

lemma spaced_after_span:
  assumes "spaced_after lo ts" and "ts \<noteq> []"
  shows "of_nat (length ts - 1) \<le> last ts - hd ts"
proof -
  from assms obtain t us where ts: "ts = t # us" by (cases ts) auto
  with assms have "spaced_after t ts" by simp
  from spaced_after_last [OF this assms(2)] ts show ?thesis by simp
qed

lemma batches_step:
  assumes "i < (n::nat)"
  shows "Suc ((n - (i + 10) + 9) div 10) = (n - i + 9) div 10"
proof (cases "i + 10 \<le> n")
  case True
  then obtain m where m: "n = i + 10 + m" using le_Suc_ex by blast
  have "(m + 9 + 10) div 10 = (m + 9) div 10 + 1" by (rule div_add_self2) simp
  with m show ?thesis by (simp add: add.commute add.left_commute)
next
  case False
  with assms obtain d where d: "n = i + d" "0 < d" "d < 10"
    by (metis add_diff_inverse_nat less_imp_add_positive not_le nat_add_left_cancel_less not_less_iff_gr_or_eq)
  then have "(d + 9) div 10 = 1" by simp
  with d show ?thesis by simp
qed

lemma query_batches_starts:
  assumes "\<forall>n. 0 \<le> latency web n"
  shows "\<exists>ts. batch_starts (trace (snd (query_batches web paths 10 i w))) =
               batch_starts (trace w) @ ts \<and>
             length ts = (length paths - i + 9) div 10 \<and> spaced_after (clock w) ts"
proof (induction "length paths - i" arbitrary: i w rule: less_induct)
  case less
  show ?case
  proof (cases "length paths \<le> i")
    case True
    then show ?thesis by (simp add: query_batches_done)
  next
    case False
    let ?w0 = "w\<lparr>trace := trace w @ [BatchStart (clock w)]\<rparr>"
    let ?batch = "take 10 (drop i paths)"
    obtain rs w1 where q: "query_paths web ?batch ?w0 = (rs, w1)"
      by (cases "query_paths web ?batch ?w0")
    let ?w2 = "if clock w1 - clock w < 1 then sleep (1 - (clock w1 - clock w)) w1 else w1"
    have c1: "clock w \<le> clock w1"
      using query_paths_clock [OF assms, of ?w0 ?batch] q by simp
    have s1: "batch_starts (trace w1) = batch_starts (trace w) @ [clock w]"
      using query_paths_starts [of web ?batch ?w0] q by (simp add: batch_starts_append)
    have c2: "clock w + 1 \<le> clock ?w2" by (simp add: sleep_def)
    have s2: "batch_starts (trace ?w2) = batch_starts (trace w) @ [clock w]"
      using s1 by (simp add: sleep_def batch_starts_append)
    have "length paths - (i + 10) < length paths - i" using False by simp
    from less [OF this, of ?w2]
    obtain ts where ts: "batch_starts (trace (snd (query_batches web paths 10 (i + 10) ?w2))) =
          batch_starts (trace ?w2) @ ts"
      and len: "length ts = (length paths - (i + 10) + 9) div 10"
      and sp: "spaced_after (clock ?w2) ts" by blast
    have unf: "snd (query_batches web paths 10 i w) = snd (query_batches web paths 10 (i + 10) ?w2)"
      using False query_batches_unfold [OF _ _ q] by simp
    have "batch_starts (trace (snd (query_batches web paths 10 i w))) =
            batch_starts (trace w) @ (clock w # ts)"
      using ts s2 by (simp only: unf) simp
    moreover have "length (clock w # ts) = (length paths - i + 9) div 10"
      using len batches_step [of i "length paths"] False by simp
    moreover have "spaced_after (clock w) (clock w # ts)"
      using spaced_after_mono [OF c2 sp] by simp
    ultimately show ?thesis by blast
  qed
qed

lemma batches_over:
  assumes "(n::nat) \<le> 10 * j"
  shows "(n + 9) div 10 \<le> j"
proof -
  from assms have "(n + 9) div 10 \<le> (10 * j + 9) div 10"
    by (intro div_le_mono) simp
  also have "(10 * j + 9) div 10 = j" by simp
  finally show ?thesis .
qed

lemma batches_under:
  assumes "10 * j < (n::nat)"
  shows "j < (n + 9) div 10"
proof -
  have "Suc j = (10 * j + 10) div 10" by simp
  also from assms have "\<dots> \<le> (n + 9) div 10"
    by (intro div_le_mono) simp
  finally show ?thesis by simp
qed

lemma batches_paced_done: "B \<le> j \<Longrightarrow> batches_paced j B = []"
  by (simp add: batches_paced_def)

lemma batches_paced_step:
  "j < B \<Longrightarrow> batches_paced j B =
     (if Suc j < B then [ProcessBatch (10 * j), Sleep 1] else [ProcessBatch (10 * j)]) @
     batches_paced (Suc j) B"
  by (simp add: batches_paced_def upt_conv_Cons)

lemma synth_batches_trace:
  "snd (synth_batches svc pages 10 (10 * j) tr) =
     tr @ batches_paced j ((length pages + 9) div 10)"
proof (induction "(length pages + 9) div 10 - j" arbitrary: j tr rule: less_induct)
  case less
  let ?B = "(length pages + 9) div 10"
  show ?case
  proof (cases "length pages \<le> 10 * j")
    case True
    then have "?B \<le> j" by (rule batches_over)
    with True show ?thesis by (simp add: synth_batches_done batches_paced_done)
  next
    case False
    then have j: "j < ?B" by (intro batches_under) simp
    have more: "10 * j + 10 < length pages \<longleftrightarrow> Suc j < ?B"
    proof
      assume "10 * j + 10 < length pages"
      then have "10 * Suc j < length pages" by simp
      then show "Suc j < ?B" by (rule batches_under)
    next
      assume a: "Suc j < ?B"
      show "10 * j + 10 < length pages"
      proof (rule ccontr)
        assume "\<not> 10 * j + 10 < length pages"
        then have "length pages \<le> 10 * Suc j" by simp
        then have "?B \<le> Suc j" by (rule batches_over)
        with a show False by simp
      qed
    qed
    let ?tr2 = "if 10 * j + 10 < length pages then tr @ [ProcessBatch (10 * j), Sleep 1]
                else tr @ [ProcessBatch (10 * j)]"
    have dec: "?B - Suc j < ?B - j" using j by simp
    have eq: "10 * Suc j = 10 * j + 10" by simp
    from less [OF dec, of ?tr2]
    have IH: "snd (synth_batches svc pages 10 (10 * j + 10) ?tr2) =
                ?tr2 @ batches_paced (Suc j) ?B" unfolding eq .
    have "snd (synth_batches svc pages 10 (10 * j) tr) =
            snd (synth_batches svc pages 10 (10 * j + 10) ?tr2)"
      using False synth_batches_unfold [of 10 "10 * j" pages svc tr] by simp
    also note IH
    also have "?tr2 @ batches_paced (Suc j) ?B = tr @ batches_paced j ?B"
      using more by (simp add: batches_paced_step [OF j])
    finally show ?thesis .
  qed
qed

lemma sleeps_batches_paced: "sleeps (batches_paced j B) = replicate (B - Suc j) 1"
proof (induction "B - j" arbitrary: j rule: less_induct)
  case less
  show ?case
  proof (cases "B \<le> j")
    case True
    then show ?thesis by (simp add: batches_paced_done)
  next
    case False
    then have j: "j < B" by simp
    then have "B - Suc j < B - j" by simp
    from less [OF this] have IH: "sleeps (batches_paced (Suc j) B) = replicate (B - Suc (Suc j)) 1" .
    show ?thesis
    proof (cases "Suc j < B")
      case True
      then have "B - Suc j = Suc (B - Suc (Suc j))" by simp
      with True IH show ?thesis
        by (simp add: batches_paced_step [OF j] sleeps_append)
    next
      case False
      with j have "B - Suc j = 0" by simp
      with False IH show ?thesis
        by (simp add: batches_paced_step [OF j] sleeps_append)
    qed
  qed
qed

lemma events_main:
  "events (generate_synthetic_data_main svc pages) = batches_paced 0 ((length pages + 9) div 10)"
  using synth_batches_trace [of svc pages 0 "[]"]
  by (auto simp: generate_synthetic_data_main_def split: prod.splits)

text \<open>
  C9. The clock of the model is exact: a request takes the time the outside gives
  it (none negative), a sleep takes the time asked for, nothing else takes time.
  For a run of the Fetcher over \<open>B\<close> batches of 10, \<open>B\<close> clock readings open a
  batch, each a second or more after the one before, so that the last batch
  starts \<open>B - 1\<close> seconds or more after the first. The trace of the Synthesizer
  over \<open>B\<close> batches of 10 is the batches with a sleep of one second after each batch
  but the last: \<open>B - 1\<close> sleeps, each of one second.
\<close>

theorem batches_throttled:
  assumes "\<forall>n. 0 \<le> latency web n"
  shows "(\<exists>results w'. batch_query_govuk_api web paths 10 (world0 t0) = Inr (results, w') \<and>
            (let ts = batch_starts (trace w'); B = (length paths + 9) div 10
             in length ts = B \<and>
                (\<forall>k. Suc k < B \<longrightarrow> ts ! k + 1 \<le> ts ! Suc k) \<and>
                (0 < B \<longrightarrow> of_nat (B - 1) \<le> last ts - hd ts))) \<and>
         (let tr = events (generate_synthetic_data_main svc pages);
              B = (length pages + 9) div 10
          in tr = batches_paced 0 B \<and> sleeps tr = replicate (B - 1) 1)"
proof -
  let ?w' = "snd (query_batches web paths 10 0 (world0 t0))"
  let ?B = "(length paths + 9) div 10"
  from query_batches_starts [OF assms, of paths 0 "world0 t0"]
  obtain ts where ts: "batch_starts (trace ?w') = ts" and len: "length ts = ?B"
    and sp: "spaced_after t0 ts"
    by (auto simp: world0_def)
  have nth: "\<forall>k. Suc k < ?B \<longrightarrow> ts ! k + 1 \<le> ts ! Suc k"
    using spaced_after_nth [OF sp] len by simp
  have span: "0 < ?B \<longrightarrow> of_nat (?B - 1) \<le> last ts - hd ts"
  proof
    assume "0 < ?B"
    with len have "ts \<noteq> []" by auto
    from spaced_after_span [OF sp this] len
    show "of_nat (?B - 1) \<le> last ts - hd ts" by simp
  qed
  have "batch_query_govuk_api web paths 10 (world0 t0) =
          Inr (fst (query_batches web paths 10 0 (world0 t0)), ?w') \<and>
        (let ts = batch_starts (trace ?w'); B = (length paths + 9) div 10
         in length ts = B \<and>
            (\<forall>k. Suc k < B \<longrightarrow> ts ! k + 1 \<le> ts ! Suc k) \<and>
            (0 < B \<longrightarrow> of_nat (B - 1) \<le> last ts - hd ts))"
    using ts len nth span by (simp add: Let_def batch_query_govuk_api_def)
  then have fetcher:
    "\<exists>results w'. batch_query_govuk_api web paths 10 (world0 t0) = Inr (results, w') \<and>
            (let ts = batch_starts (trace w'); B = (length paths + 9) div 10
             in length ts = B \<and>
                (\<forall>k. Suc k < B \<longrightarrow> ts ! k + 1 \<le> ts ! Suc k) \<and>
                (0 < B \<longrightarrow> of_nat (B - 1) \<le> last ts - hd ts))"
    by blast
  have "sleeps (events (generate_synthetic_data_main svc pages)) =
          replicate ((length pages + 9) div 10 - 1) 1"
    by (simp add: events_main sleeps_batches_paced)
  with fetcher show ?thesis by (simp add: Let_def events_main)
qed

theorem batches_throttled_witness:
  "(\<exists>results w'. batch_query_govuk_api sample_web (replicate 11 ''/gone'') 10 (world0 0) =
        Inr (results, w') \<and>
      length (batch_starts (trace w')) = 2 \<and>
      1 \<le> last (batch_starts (trace w')) - hd (batch_starts (trace w'))) \<and>
   events (generate_synthetic_data_main sample_service (replicate 11 (sample_page ''p'' None))) =
     [ProcessBatch 0, Sleep 1, ProcessBatch 10] \<and>
   sleeps (events (generate_synthetic_data_main sample_service
                     (replicate 11 (sample_page ''p'' None)))) = [1]"
proof -
  have h: "\<forall>n. 0 \<le> latency sample_web n" by (simp add: sample_web_def)
  have b: "batches_paced 0 2 = [ProcessBatch 0, Sleep 1, ProcessBatch 10]"
    by (simp add: batches_paced_def numeral_2_eq_2)
  from batches_throttled [OF h, of "replicate 11 ''/gone''" 0 sample_service
         "replicate 11 (sample_page ''p'' None)"]
  show ?thesis
    by (auto simp: Let_def b)
qed

end
